theory Spec2Isabelle
  imports Complex_Main "HOL-Library.Sublist"
begin

section \<open>Python strings\<close>

text \<open>
  A Python \<open>str\<close> is a sequence of code points. The model reads a \<open>string\<close> as such a
  sequence with every \<open>char\<close> one code point in the range 0..255 (\<open>of_char\<close> is
  Python's \<open>ord\<close>), so \<open>length\<close> is
  Python's \<open>len\<close>. \<open>isspace\<close> is \<open>str.isspace\<close> on that range: the characters
  \<open>str.strip()\<close> and \<open>str.split()\<close> treat as whitespace.
\<close>

definition isspace :: "char \<Rightarrow> bool" where
  "isspace c = (of_char c \<in> {9, 10, 11, 12, 13, 28, 29, 30, 31, 32, 133, 160 :: int})"

definition strip :: "string \<Rightarrow> string" where
  \<comment> \<open>\<open>s.strip()\<close>\<close>
  "strip s = rev (dropWhile isspace (rev (dropWhile isspace s)))"

definition lstrip_newline :: "string \<Rightarrow> string" where
  \<comment> \<open>\<open>s.lstrip('\n')\<close>\<close>
  "lstrip_newline s = dropWhile (\<lambda>c. c = CHR 0x0A) s"

fun contains :: "string \<Rightarrow> string \<Rightarrow> bool" where
  \<comment> \<open>\<open>sep in s\<close>\<close>
  "contains sep [] = (sep = [])"
| "contains sep (c # cs) = (prefix sep (c # cs) \<or> contains sep cs)"

fun push_char :: "char \<Rightarrow> string list \<Rightarrow> string list" where
  \<comment> \<open>One more character in front of the first part.\<close>
  "push_char c [] = [[c]]"
| "push_char c (p # ps) = (c # p) # ps"

function split_str :: "string \<Rightarrow> string \<Rightarrow> string list" where
  \<comment> \<open>\<open>s.split(sep)\<close> for a non-empty \<open>sep\<close>: the occurrences are taken left to right
     and do not overlap. (Python raises ValueError for an empty separator; the
     markers are all non-empty, and the model then returns the whole string.)\<close>
  "split_str sep [] = [[]]"
| "split_str sep (c # cs) =
     (if sep \<noteq> [] \<and> prefix sep (c # cs) then [] # split_str sep (drop (length sep) (c # cs))
      else push_char c (split_str sep cs))"
  by pat_completeness auto
termination
  by (relation "measure (\<lambda>(sep, s). length s)") (auto simp: prefix_def)

declare split_str.simps [simp del]

fun rfind_aux :: "string \<Rightarrow> string \<Rightarrow> int \<Rightarrow> int \<Rightarrow> int" where
  "rfind_aux p [] i best = (if p = [] then i else best)"
| "rfind_aux p (c # cs) i best = rfind_aux p cs (i + 1) (if prefix p (c # cs) then i else best)"

definition rfind :: "string \<Rightarrow> string \<Rightarrow> int" where
  \<comment> \<open>\<open>s.rfind(p)\<close>: the highest index at which \<open>p\<close> occurs in \<open>s\<close>, or -1.\<close>
  "rfind s p = rfind_aux p s 0 (- 1)"

definition py_index :: "int \<Rightarrow> nat \<Rightarrow> nat" where
  \<comment> \<open>A slice bound as Python reads it: a negative bound counts from the end, and
     every bound is clamped to \<open>0..n\<close>.\<close>
  "py_index i n = (if i < 0 then nat (max 0 (i + int n)) else min (nat i) n)"

definition slice :: "string \<Rightarrow> int \<Rightarrow> int \<Rightarrow> string" where
  \<comment> \<open>\<open>s[a:b]\<close>\<close>
  "slice s a b = (let i = py_index a (length s); j = py_index b (length s)
                  in take (j - i) (drop i s))"

definition slice_from :: "string \<Rightarrow> int \<Rightarrow> string" where
  \<comment> \<open>\<open>s[a:]\<close>\<close>
  "slice_from s a = drop (py_index a (length s)) s"

section \<open>The chunker (agents/chunker.py)\<close>

text \<open>
  \<open>ChunkerAgent\<close> holds \<open>chunk_size\<close> and \<open>overlap\<close> (30000 and 200 unless the caller
  says otherwise); the functions below take them as their first two arguments.
\<close>

subsection \<open>\<open>_split_large_section\<close>\<close>

definition break_points :: "string list" where
  "break_points = [''. '', ''.\<newline>'', ''!\<newline>'', ''?\<newline>'', ''\<newline>\<newline>'']"

fun find_break :: "string \<Rightarrow> int \<Rightarrow> int \<Rightarrow> string list \<Rightarrow> int" where
  \<comment> \<open>The \<open>for point in break_points\<close> loop: \<open>best\<close> is \<open>end\<close> on entry, and the first
     point whose last occurrence lies within the last 200 characters decides.\<close>
  "find_break chnk start best [] = best"
| "find_break chnk start best (point # points) =
     (let last_occurrence = rfind chnk point in
      if last_occurrence > int (length chnk) - 200
      then start + last_occurrence + int (length point)
      else find_break chnk start best points)"

partial_function (option) split_loop ::
  "int \<Rightarrow> int \<Rightarrow> string \<Rightarrow> int \<Rightarrow> string list \<Rightarrow> string list option" where
  \<comment> \<open>The \<open>while start < len(section)\<close> loop; \<open>None\<close> is a loop that never ends.\<close>
  "split_loop chunk_size overlap section start chunks =
     (if start < int (length section) then
        (let e = start + chunk_size in
         if e \<ge> int (length section) then Some (chunks @ [slice_from section start])
         else
           (let chnk = slice section start e;
                best_break = find_break chnk start e break_points
            in split_loop chunk_size overlap section (best_break - overlap)
                 (chunks @ [slice section start best_break])))
      else Some chunks)"

declare split_loop.simps [code]

definition split_large_section :: "int \<Rightarrow> int \<Rightarrow> string \<Rightarrow> string list option" where
  "split_large_section chunk_size overlap section = split_loop chunk_size overlap section 0 []"

subsection \<open>\<open>intelligent_chunk\<close>\<close>

definition section_markers :: "string list" where
  "section_markers =
     [''\<newline>\<newline>\<newline>'', ''\<newline>Section '', ''\<newline>Article '', ''\<newline>Chapter '',
      ''\<newline>### '', ''\<newline>## '', ''\<newline># '']"

definition reattach :: "string \<Rightarrow> string list \<Rightarrow> string list" where
  \<comment> \<open>The \<open>for i, part in enumerate(parts)\<close> loop: the marker, without its leading
     newlines, goes back in front of every part but the first; a part that strips to
     nothing is dropped.\<close>
  "reattach marker parts =
     (case parts of
        [] \<Rightarrow> []
      | p # ps \<Rightarrow> filter (\<lambda>part. strip part \<noteq> []) (p # map (\<lambda>q. lstrip_newline marker @ q) ps))"

definition split_section :: "string \<Rightarrow> string \<Rightarrow> string list" where
  "split_section marker section =
     (if contains marker section then reattach marker (split_str marker section)
      else [section])"

definition apply_marker :: "string list \<Rightarrow> string \<Rightarrow> string list" where
  "apply_marker sections marker = concat (map (split_section marker) sections)"

definition structural_split :: "string \<Rightarrow> string list" where
  \<comment> \<open>\<open>sections\<close> after the \<open>for marker in section_markers\<close> loop.\<close>
  "structural_split content = foldl apply_marker [content] section_markers"

definition section_pieces :: "int \<Rightarrow> int \<Rightarrow> string \<Rightarrow> string list option" where
  \<comment> \<open>What one section adds to \<open>final_chunks\<close>.\<close>
  "section_pieces chunk_size overlap section =
     (if int (length section) \<le> chunk_size then Some [section]
      else split_large_section chunk_size overlap section)"

definition intelligent_chunk :: "int \<Rightarrow> int \<Rightarrow> string \<Rightarrow> string list option" where
  "intelligent_chunk chunk_size overlap content =
     map_option concat (those (map (section_pieces chunk_size overlap) (structural_split content)))"

definition smart_chunk :: "int \<Rightarrow> int \<Rightarrow> string \<Rightarrow> string list option" where
  "smart_chunk chunk_size overlap content = intelligent_chunk chunk_size overlap content"

subsection \<open>\<open>chunk_document\<close>\<close>

record chunk =
  chunk_id :: nat
  content :: string
  doc_type :: string
  char_count :: nat
  estimated_tokens :: nat

fun build_result :: "string \<Rightarrow> nat \<Rightarrow> string list \<Rightarrow> chunk list" where
  \<comment> \<open>The \<open>for i, chunk in enumerate(chunks)\<close> loop, \<open>i\<close> the index of the head.\<close>
  "build_result dt i [] = []"
| "build_result dt i (c # cs) =
     (if strip c \<noteq> []
      then \<lparr>chunk_id = i + 1, content = strip c, doc_type = dt,
             char_count = length c, estimated_tokens = length c div 4\<rparr> # build_result dt (i + 1) cs
      else build_result dt (i + 1) cs)"

definition chunk_document :: "int \<Rightarrow> int \<Rightarrow> string \<Rightarrow> string \<Rightarrow> chunk list option" where
  \<comment> \<open>No operation of the body raises on a \<open>str\<close>, so the \<open>except\<close> branch is not
     a branch of the model; \<open>None\<close> is the splitter's loop never ending.\<close>
  "chunk_document chunk_size overlap text dt =
     (if text = [] \<or> length (strip text) < 10 then Some []
      else map_option (build_result dt 0) (smart_chunk chunk_size overlap (strip text)))"

section \<open>Characters and regular expressions (Python's \<open>re\<close>)\<close>

text \<open>
  The character classes are Python's on the code points 0..255: \<open>\d\<close> is the ten
  decimal digits, \<open>\w\<close> is \<open>str.isalnum\<close> or the underscore, \<open>\s\<close> is \<open>isspace\<close>, and
  \<open>str.lower\<close> maps the capital letters of both halves of the range.
\<close>

definition isdigit :: "char \<Rightarrow> bool" where
  "isdigit c = (48 \<le> (of_char c :: int) \<and> (of_char c :: int) \<le> 57)"

definition ascii_upper :: "char \<Rightarrow> bool" where
  "ascii_upper c = (65 \<le> (of_char c :: int) \<and> (of_char c :: int) \<le> 90)"

definition ascii_lower :: "char \<Rightarrow> bool" where
  "ascii_lower c = (97 \<le> (of_char c :: int) \<and> (of_char c :: int) \<le> 122)"

definition ascii_letter :: "char \<Rightarrow> bool" where
  "ascii_letter c = (ascii_upper c \<or> ascii_lower c)"

definition isalnum :: "char \<Rightarrow> bool" where
  \<comment> \<open>\<open>str.isalnum\<close>: the digits and letters of ASCII, and in the upper half the
     letters, the superscript digits and the fractions.\<close>
  "isalnum c =
     (let n = (of_char c :: int) in
      isdigit c \<or> ascii_letter c \<or> n \<in> {170, 178, 179, 181, 185, 186, 188, 189, 190}
      \<or> (192 \<le> n \<and> n \<le> 214) \<or> (216 \<le> n \<and> n \<le> 246) \<or> 248 \<le> n)"

definition isword :: "char \<Rightarrow> bool" where
  \<comment> \<open>\<open>\w\<close>\<close>
  "isword c = (isalnum c \<or> c = CHR ''_'')"

definition lower_char :: "char \<Rightarrow> char" where
  "lower_char c =
     (let n = (of_char c :: int) in
      if (65 \<le> n \<and> n \<le> 90) \<or> (192 \<le> n \<and> n \<le> 214) \<or> (216 \<le> n \<and> n \<le> 222)
      then char_of (n + 32) else c)"

definition lower :: "string \<Rightarrow> string" where
  \<comment> \<open>\<open>s.lower()\<close>\<close>
  "lower s = map lower_char s"

text \<open>
  The patterns of the source use repetition on single characters and character classes
  only, so the syntax of the model has repetition for a class: \<open>Rep P lo hi\<close> is
  \<open>[P]{lo,hi}\<close>, greedy, with \<open>hi = None\<close> for no upper bound. \<open>WordB\<close> is \<open>\b\<close>,
  \<open>Bol\<close> and \<open>Eol\<close> are \<open>^\<close> and \<open>$\<close> without the MULTILINE flag, \<open>Look\<close> is
  \<open>(?=...)\<close>. No pattern of the source uses \<open>^\<close>, \<open>$\<close> or \<open>.\<close> under the MULTILINE
  or DOTALL flag, and none matches the empty string.
\<close>

datatype re =
    Chr "char \<Rightarrow> bool"
  | Eps
  | Seq re re
  | Alt re re
  | Rep "char \<Rightarrow> bool" nat "nat option"
  | WordB
  | Bol
  | Eol
  | Look re

fun word_before :: "char option \<Rightarrow> bool" where
  "word_before None = False"
| "word_before (Some c) = isword c"

fun word_after :: "string \<Rightarrow> bool" where
  "word_after [] = False"
| "word_after (c # cs) = isword c"

fun can_more :: "nat option \<Rightarrow> bool" where
  "can_more None = True"
| "can_more (Some h) = (0 < h)"

fun rep_match ::
  "(char \<Rightarrow> bool) \<Rightarrow> nat \<Rightarrow> nat option \<Rightarrow> char option \<Rightarrow> string
     \<Rightarrow> (char option \<Rightarrow> string \<Rightarrow> string option) \<Rightarrow> string option" where
  \<comment> \<open>Greedy: one more character first; when the rest of the pattern then fails, and
     the lower bound is reached, the rest of the pattern from here.\<close>
  "rep_match P lo hi prev [] k = (if lo = 0 then k prev [] else None)"
| "rep_match P lo hi prev (c # cs) k =
     (if P c \<and> can_more hi then
        (case rep_match P (lo - 1) (map_option (\<lambda>h. h - 1) hi) (Some c) cs k of
           Some r \<Rightarrow> Some r
         | None \<Rightarrow> (if lo = 0 then k prev (c # cs) else None))
      else (if lo = 0 then k prev (c # cs) else None))"

fun rmatch ::
  "re \<Rightarrow> char option \<Rightarrow> string \<Rightarrow> (char option \<Rightarrow> string \<Rightarrow> string option)
     \<Rightarrow> string option" where
  \<comment> \<open>A backtracking match of \<open>r\<close> at one position: \<open>prev\<close> is the character before
     the position, the string is the text from the position on, and \<open>k\<close> is the rest
     of the pattern. The result is the text left after the whole match.\<close>
  "rmatch (Chr P) prev [] k = None"
| "rmatch (Chr P) prev (c # cs) k = (if P c then k (Some c) cs else None)"
| "rmatch Eps prev s k = k prev s"
| "rmatch (Seq r1 r2) prev s k = rmatch r1 prev s (\<lambda>p t. rmatch r2 p t k)"
| "rmatch (Alt r1 r2) prev s k =
     (case rmatch r1 prev s k of Some r \<Rightarrow> Some r | None \<Rightarrow> rmatch r2 prev s k)"
| "rmatch (Rep P lo hi) prev s k = rep_match P lo hi prev s k"
| "rmatch WordB prev s k = (if word_before prev \<noteq> word_after s then k prev s else None)"
| "rmatch Bol prev s k = (if prev = None then k prev s else None)"
| "rmatch Eol prev s k = (if s = [] \<or> s = [CHR 0x0A] then k prev s else None)"
| "rmatch (Look r) prev s k =
     (case rmatch r prev s (\<lambda>p t. Some t) of Some r \<Rightarrow> k prev s | None \<Rightarrow> None)"

definition match_len :: "re \<Rightarrow> char option \<Rightarrow> string \<Rightarrow> nat option" where
  \<comment> \<open>The length of the match of \<open>r\<close> at this position, if there is one.\<close>
  "match_len r prev s = map_option (\<lambda>t. length s - length t) (rmatch r prev s (\<lambda>p t. Some t))"

text \<open>
  \<open>re.findall\<close>, \<open>re.sub\<close> and \<open>re.split\<close> scan the text from left to right and take
  the leftmost match at or after the end of the previous one. \<open>skip\<close> counts the
  characters of a match still to pass. The replacement of \<open>re.sub\<close> is a function of
  the matched text, which is how the templates \<open>\1 \2\<close> of the source are written.
\<close>

fun findall_from :: "re \<Rightarrow> char option \<Rightarrow> string \<Rightarrow> nat \<Rightarrow> string list" where
  "findall_from r prev [] skip =
     (if skip = 0 \<and> match_len r prev [] \<noteq> None then [[]] else [])"
| "findall_from r prev (c # cs) skip =
     (if 0 < skip then findall_from r (Some c) cs (skip - 1)
      else (case match_len r prev (c # cs) of
              None \<Rightarrow> findall_from r (Some c) cs 0
            | Some n \<Rightarrow> take n (c # cs) # findall_from r (Some c) cs (n - 1)))"

definition re_findall :: "re \<Rightarrow> string \<Rightarrow> string list" where
  "re_findall r s = findall_from r None s 0"

fun sub_from :: "re \<Rightarrow> (string \<Rightarrow> string) \<Rightarrow> char option \<Rightarrow> string \<Rightarrow> nat \<Rightarrow> string" where
  "sub_from r repl prev [] skip =
     (if skip = 0 \<and> match_len r prev [] \<noteq> None then repl [] else [])"
| "sub_from r repl prev (c # cs) skip =
     (if 0 < skip then sub_from r repl (Some c) cs (skip - 1)
      else (case match_len r prev (c # cs) of
              None \<Rightarrow> c # sub_from r repl (Some c) cs 0
            | Some n \<Rightarrow>
                (if n = 0 then repl [] @ c # sub_from r repl (Some c) cs 0
                 else repl (take n (c # cs)) @ sub_from r repl (Some c) cs (n - 1))))"

definition re_sub :: "re \<Rightarrow> (string \<Rightarrow> string) \<Rightarrow> string \<Rightarrow> string" where
  "re_sub r repl s = sub_from r repl None s 0"

fun split_from :: "re \<Rightarrow> char option \<Rightarrow> string \<Rightarrow> nat \<Rightarrow> string \<Rightarrow> string list" where
  \<comment> \<open>\<open>cur\<close> is the piece being read, last character first. (A pattern that matches
     the empty string would split there too in Python; the one pattern split on does
     not.)\<close>
  "split_from r prev [] skip cur = [rev cur]"
| "split_from r prev (c # cs) skip cur =
     (if 0 < skip then split_from r (Some c) cs (skip - 1) cur
      else (case match_len r prev (c # cs) of
              None \<Rightarrow> split_from r (Some c) cs 0 (c # cur)
            | Some n \<Rightarrow>
                (if n = 0 then split_from r (Some c) cs 0 (c # cur)
                 else rev cur # split_from r (Some c) cs (n - 1) [])))"

definition re_split :: "re \<Rightarrow> string \<Rightarrow> string list" where
  "re_split r s = split_from r None s 0 []"

text \<open>Pattern syntax: literals (as written, or under IGNORECASE), sequences, choices.\<close>

definition chr :: "char \<Rightarrow> re" where
  "chr x = Chr (\<lambda>c. c = x)"

definition chr_i :: "char \<Rightarrow> re" where
  "chr_i x = Chr (\<lambda>c. lower_char c = lower_char x)"

fun lit :: "string \<Rightarrow> re" where
  "lit [] = Eps"
| "lit (x # xs) = Seq (chr x) (lit xs)"

fun lit_i :: "string \<Rightarrow> re" where
  "lit_i [] = Eps"
| "lit_i (x # xs) = Seq (chr_i x) (lit_i xs)"

fun seqs :: "re list \<Rightarrow> re" where
  "seqs [] = Eps"
| "seqs (r # rs) = Seq r (seqs rs)"

fun alts :: "re list \<Rightarrow> re" where
  "alts [] = Chr (\<lambda>c. False)"
| "alts [r] = r"
| "alts (r # rs) = Alt r (alts rs)"

text \<open>More of Python's \<open>str\<close>.\<close>

fun words_from :: "string \<Rightarrow> string \<Rightarrow> string list" where
  "words_from cur [] = (if cur = [] then [] else [rev cur])"
| "words_from cur (c # cs) =
     (if isspace c then (if cur = [] then words_from [] cs else rev cur # words_from [] cs)
      else words_from (c # cur) cs)"

definition py_words :: "string \<Rightarrow> string list" where
  \<comment> \<open>\<open>s.split()\<close>: the maximal runs of characters that are not whitespace.\<close>
  "py_words s = words_from [] s"

fun find_from :: "string \<Rightarrow> string \<Rightarrow> int \<Rightarrow> int" where
  "find_from p [] i = (if p = [] then i else - 1)"
| "find_from p (c # cs) i = (if prefix p (c # cs) then i else find_from p cs (i + 1))"

definition str_find :: "string \<Rightarrow> string \<Rightarrow> int" where
  \<comment> \<open>\<open>s.find(p)\<close>\<close>
  "str_find s p = find_from p s 0"

function show_nat :: "nat \<Rightarrow> string" where
  \<comment> \<open>\<open>str(n)\<close>\<close>
  "show_nat n = (if n < 10 then [char_of (48 + int n)]
                else show_nat (n div 10) @ [char_of (48 + int (n mod 10))])"
  by pat_completeness auto
termination
  by (relation "measure id") auto

declare show_nat.simps [simp del]

definition show_int :: "int \<Rightarrow> string" where
  "show_int i = (if i < 0 then CHR ''-'' # show_nat (nat (- i)) else show_nat (nat i))"

definition pad3 :: "nat \<Rightarrow> string" where
  \<comment> \<open>\<open>f'{n:03d}'\<close>\<close>
  "pad3 n = replicate (3 - length (show_nat n)) CHR ''0'' @ show_nat n"

section \<open>The requirement extractor (agents/requirement\_extractor.py)\<close>

subsection \<open>Values and collaborators\<close>

text \<open>
  A requirement is a Python dict whose values come from the code or from the parsed
  response, so a value is any JSON value and a dict is a list of keys and values in
  insertion order. A chunk id is a number (from the chunker) or a string.
\<close>

datatype json =
    JNull
  | JBool bool
  | JInt int
  | JFloat rat
  | JStr string
  | JArr "json list"
  | JObj "(string \<times> json) list"

type_synonym pydict = "(string \<times> json) list"

fun dict_set :: "string \<Rightarrow> json \<Rightarrow> pydict \<Rightarrow> pydict" where
  \<comment> \<open>\<open>d[k] = v\<close>: a key that is there keeps its place.\<close>
  "dict_set k v [] = [(k, v)]"
| "dict_set k v ((k', v') # d) = (if k' = k then (k, v) # d else (k', v') # dict_set k v d)"

definition dict_get :: "pydict \<Rightarrow> string \<Rightarrow> json \<Rightarrow> json" where
  \<comment> \<open>\<open>d.get(k, default)\<close>\<close>
  "dict_get d k dflt = (case map_of d k of Some v \<Rightarrow> v | None \<Rightarrow> dflt)"

fun type_name :: "json \<Rightarrow> string" where
  "type_name JNull = ''NoneType''"
| "type_name (JBool b) = ''bool''"
| "type_name (JInt i) = ''int''"
| "type_name (JFloat q) = ''float''"
| "type_name (JStr s) = ''str''"
| "type_name (JArr xs) = ''list''"
| "type_name (JObj d) = ''dict''"

datatype ident = IdInt int | IdStr string

fun id_json :: "ident \<Rightarrow> json" where
  "id_json (IdInt i) = JInt i"
| "id_json (IdStr s) = JStr s"

fun show_id :: "ident \<Rightarrow> string" where
  \<comment> \<open>\<open>f'{chunk_id}'\<close>\<close>
  "show_id (IdInt i) = show_int i"
| "show_id (IdStr s) = s"

record req_chunk =
  rc_content :: string
  rc_id :: ident

text \<open>
  What the extractor calls and the repository does not define: the generation call
  (\<open>self.llm.invoke\<close>, which answers with a text or fails with a message, and may answer
  differently each time: it has a state of its own), \<open>json.loads\<close> (\<open>None\<close> is
  JSONDecodeError), the text splitter's \<open>split_text\<close>, the hexadecimal MD5 digest, and
  the order in which Python lists the elements of a set of strings.
\<close>

record 's env =
  llm_invoke :: "'s \<Rightarrow> string \<Rightarrow> string \<Rightarrow> (string + string) \<times> 's"
  json_loads :: "string \<Rightarrow> json option"
  split_text :: "string \<Rightarrow> string list"
  md5_hexdigest :: "string \<Rightarrow> string"
  set_order :: "string list \<Rightarrow> string list"

subsection \<open>\<open>_preprocess_content\<close>\<close>

definition noise_patterns :: "re list" where
  "noise_patterns =
     [seqs [WordB,
            Alt (Seq (lit_i ''page '') (Rep isdigit 1 None))
                (Seq (lit_i ''pg. '') (Rep isdigit 1 None)),
            WordB],
      seqs [WordB, Rep isdigit 1 (Some 2), Chr (\<lambda>c. c = CHR ''/'' \<or> c = CHR ''-''),
            Rep isdigit 1 (Some 2), Chr (\<lambda>c. c = CHR ''/'' \<or> c = CHR ''-''),
            Rep isdigit 2 (Some 4), WordB],
      seqs [Bol, Rep isspace 0 None,
            Rep (\<lambda>c. isdigit c \<or> c = CHR ''.'' \<or> c = CHR ''-'' \<or> c = CHR ''('' \<or> c = CHR '')'') 1 None,
            Rep isspace 0 None, Eol],
      seqs [WordB, alts [lit_i ''figure'', lit_i ''table'', lit_i ''chart'', lit_i ''appendix''],
            Rep isspace 1 None, Rep isdigit 1 None, WordB],
      Rep isspace 3 None,
      Rep (\<lambda>c. c = CHR ''_'') 3 None]"

fun spaced :: "string \<Rightarrow> string" where
  \<comment> \<open>The template \<open>\1 \2\<close> for a match whose two groups are its first and its last
     character.\<close>
  "spaced [] = []"
| "spaced (x # xs) = [x, CHR '' '', last (x # xs)]"

definition preprocess_content :: "string \<Rightarrow> string" where
  "preprocess_content body =
     (if strip body = [] then body
      else
        (let c1 = foldl (\<lambda>c pattern. re_sub pattern (\<lambda>m. '' '') c) body noise_patterns;
             c2 = re_sub (Rep isspace 1 None) (\<lambda>m. '' '') c1;
             c3 = re_sub (Seq (Chr ascii_lower) (Chr ascii_upper)) spaced c2;
             c4 = re_sub (Seq (Chr isdigit) (Chr ascii_letter)) spaced c3;
             c5 = re_sub (Seq (Chr ascii_letter) (Chr isdigit)) spaced c4;
             c6 = re_sub (Seq (chr CHR ''.'') (Look (Chr ascii_upper))) (\<lambda>m. ''. '') c5
         in strip c6))"

subsection \<open>\<open>_assess_content_quality\<close>\<close>

definition regulatory_keywords :: "(string \<times> string list) list" where
  "regulatory_keywords =
     [(''mandatory'', [''must'', ''shall'', ''required'', ''mandatory'', ''obligated'', ''necessary'']),
      (''prohibitive'', [''prohibited'', ''forbidden'', ''not permitted'', ''shall not'', ''must not'']),
      (''conditional'', [''should'', ''may'', ''could'', ''recommended'', ''advisable'']),
      (''temporal'', [''immediately'', ''within'', ''by'', ''before'', ''after'', ''during'']),
      (''quantitative'', [''minimum'', ''maximum'', ''at least'', ''no more than'', ''exceeds'', ''below''])]"

definition keyword_re :: "string \<Rightarrow> re" where
  \<comment> \<open>\<open>rf'\b{keyword}\b'\<close> under IGNORECASE\<close>
  "keyword_re keyword = seqs [WordB, lit_i keyword, WordB]"

definition special_char :: "char \<Rightarrow> bool" where
  \<comment> \<open>The class \<open>[^\w\s.,!?;:-]\<close>\<close>
  "special_char c =
     (\<not> (isword c \<or> isspace c \<or> c = CHR ''.'' \<or> c = CHR '','' \<or> c = CHR ''!'' \<or> c = CHR ''?''
         \<or> c = CHR '';'' \<or> c = CHR '':'' \<or> c = CHR ''-''))"

record quality =
  word_count :: nat
  regulatory_indicators :: nat
  coherent_sentences :: nat
  quality_score :: rat
  needs_splitting :: bool
  likely_corrupted :: bool

text \<open>
  Python computes the two ratios and the score in binary floating point; the model
  computes them exactly, in the rationals.
\<close>

definition avg_word_length :: "string \<Rightarrow> rat" where
  "avg_word_length body =
     of_nat (sum_list (map length (py_words body))) / of_nat (max (length (py_words body)) 1)"

definition regulatory_count :: "string \<Rightarrow> nat" where
  "regulatory_count body =
     sum_list (map (\<lambda>keyword. length (re_findall (keyword_re keyword) body))
                   (concat (map snd regulatory_keywords)))"

definition coherent_sentence_count :: "string \<Rightarrow> nat" where
  "coherent_sentence_count body =
     length (filter (\<lambda>s. 3 < length (py_words s))
               (re_split (Rep (\<lambda>c. c = CHR ''.'' \<or> c = CHR ''!'' \<or> c = CHR ''?'') 1 None) body))"

definition special_char_ratio :: "string \<Rightarrow> rat" where
  "special_char_ratio body =
     of_nat (length (re_findall (Chr special_char) body)) / of_nat (max (length body) 1)"

definition assess_content_quality :: "string \<Rightarrow> quality" where
  "assess_content_quality body =
     (let wc = length (py_words body);
          score = min 100
                    (of_nat (regulatory_count body * 10)
                     + of_nat (coherent_sentence_count body * 5)
                     + (if 50 < wc \<and> wc < 1000 then 50 else 20)
                     + (if 3 < avg_word_length body then 20 else 10)
                     - special_char_ratio body * 100)
      in \<lparr>word_count = wc,
          regulatory_indicators = regulatory_count body,
          coherent_sentences = coherent_sentence_count body,
          quality_score = score,
          needs_splitting = (2500 < wc),
          likely_corrupted = (3 / 10 < special_char_ratio body \<or> score < 20)\<rparr>)"

subsection \<open>The prompts\<close>

fun join_lines :: "string list \<Rightarrow> string" where
  \<comment> \<open>The lines with a newline between each two.\<close>
  "join_lines [] = []"
| "join_lines [l] = l"
| "join_lines (l # ls) = l @ CHR 0x0A # join_lines ls"

definition enhanced_system_prompt :: string where
  \<open>enhanced_system_prompt = join_lines
     [''You are an expert regulatory compliance analyst specializing in financial regulations. '',
      '''',
      ''Your task is to extract specific, actionable compliance requirements from regulatory documents. '',
      '''',
      ''EXPERTISE AREAS:'',
      ''- Banking regulations (Basel III, CRD IV, etc.)'',
      ''- Risk management frameworks'',
      ''- Capital adequacy requirements'',
      ''- Reporting and disclosure obligations'',
      ''- Governance and operational requirements'',
      '''',
      ''EXTRACTION PRINCIPLES:'',
      ''1. Focus ONLY on explicit obligations (must, shall, required, etc.)'',
      ''2. Distinguish between mandatory requirements and recommendations'',
      ''3. Preserve exact regulatory language when possible'',
      ''4. Identify specific compliance actions, not general descriptions'',
      ''5. Extract quantitative thresholds, deadlines, and specific criteria'',
      '''',
      ''Always respond with valid JSON only. Be precise and comprehensive.'']\<close>

definition enhanced_extraction_prompt :: "string \<Rightarrow> ident \<Rightarrow> quality \<Rightarrow> string" where
  \<open>enhanced_extraction_prompt body cid qa =
     (let extraction_focus =
            (if 10 < regulatory_indicators qa
             then ''This appears to be regulatory-dense content. Pay special attention to compliance obligations.''
             else if word_count qa < 100
             then ''This is a short text segment. Extract any explicit requirements, even brief ones.''
             else ''Analyze this content thoroughly for any compliance requirements.'')
      in join_lines
           ['''',
            extraction_focus,
            '''',
            ''REGULATORY TEXT:'',
            body,
            '''',
            ''EXTRACTION TASK:'',
            ''Extract all specific compliance requirements that financial institutions must follow.'',
            '''',
            ''MANDATORY INDICATORS TO LOOK FOR:'',
            ''- "must", "shall", "required to", "obligated to", "mandatory"'',
            ''- "prohibited from", "shall not", "must not", "forbidden"'',
            ''- Specific deadlines, thresholds, or quantitative requirements'',
            ''- Reporting obligations and submission requirements'',
            ''- Risk management and control requirements'',
            '''',
            ''JSON RESPONSE FORMAT:'',
            ''{'',
            ''    "chunk_id": "'' @ show_id cid @ ''",'',
            ''    "requirements": ['',
            ''        {'',
            ''            "id": "REQ001",'',
            ''            "requirement": "Complete exact requirement text with all details",'',
            ''            "category": "risk_management|capital_adequacy|reporting|governance|operational|liquidity|credit_risk|market_risk|compliance",'',
            ''            "priority": "high|medium|low",'',
            ''            "reference": "Specific section/paragraph/article reference",'',
            ''            "keywords": ["relevant", "keywords", "extracted"],'',
            ''            "requirement_type": "mandatory|prohibitive|conditional|quantitative|procedural",'',
            ''            "deadline": "If any deadline mentioned",'',
            ''            "applies_to": "Who this requirement applies to"'',
            ''        }'',
            ''    ]'',
            ''}'',
            '''',
            ''CRITICAL INSTRUCTIONS:'',
            ''- Respond with ONLY the JSON object'',
            ''- No markdown, no explanations, no additional text'',
            ''- Include ALL explicit requirements found'',
            ''- If no requirements found, return empty requirements array'',
            ''- Ensure all JSON is properly escaped and formatted'',
            ''''])\<close>

subsection \<open>\<open>_classify_requirement_category\<close> and \<open>_extract_enhanced_keywords\<close>\<close>

definition category_keywords :: "(string \<times> string list) list" where
  "category_keywords =
     [(''capital_adequacy'', [''capital'', ''tier 1'', ''tier 2'', ''capital ratio'', ''adequacy'', ''buffer'']),
      (''risk_management'', [''risk'', ''risk management'', ''risk assessment'', ''risk control'', ''exposure'']),
      (''reporting'', [''report'', ''reporting'', ''disclosure'', ''submit'', ''filing'', ''notification'']),
      (''liquidity'', [''liquidity'', ''liquid assets'', ''funding'', ''cash'', ''liquidity ratio'']),
      (''governance'', [''governance'', ''board'', ''management'', ''oversight'', ''supervision'']),
      (''operational'', [''operational'', ''procedures'', ''controls'', ''processes'', ''systems'']),
      (''credit_risk'', [''credit risk'', ''lending'', ''loan'', ''default'', ''credit assessment'']),
      (''market_risk'', [''market risk'', ''trading'', ''market exposure'', ''position'']),
      (''compliance'', [''compliance'', ''regulatory'', ''regulation'', ''authorized'', ''license''])]"

fun first_category :: "string \<Rightarrow> (string \<times> string list) list \<Rightarrow> string" where
  "first_category text_lower [] = ''general''"
| "first_category text_lower ((category, keywords) # rest) =
     (if list_ex (\<lambda>keyword. contains keyword text_lower) keywords then category
      else first_category text_lower rest)"

definition classify_requirement_category :: "string \<Rightarrow> string" where
  "classify_requirement_category t = first_category (lower t) category_keywords"

definition time_re :: re where
  \<comment> \<open>\<open>\b(annual|quarterly|monthly|daily|immediate|within \d+)\b\<close>\<close>
  "time_re =
     seqs [WordB,
           alts [lit ''annual'', lit ''quarterly'', lit ''monthly'', lit ''daily'', lit ''immediate'',
                 Seq (lit ''within '') (Rep isdigit 1 None)],
           WordB]"

definition extract_enhanced_keywords :: "'s env \<Rightarrow> string \<Rightarrow> string list" where
  \<comment> \<open>The keywords are gathered in a set; \<open>list(keywords)[:10]\<close> takes the first ten in
     the order in which Python lists the set.\<close>
  "extract_enhanced_keywords env t =
     (let text_lower = lower t;
          action_keywords = [''assess'', ''monitor'', ''report'', ''maintain'', ''establish'', ''ensure'',
                             ''implement'', ''comply''];
          financial_terms = [''capital'', ''risk'', ''liquidity'', ''exposure'', ''ratio'', ''threshold'',
                             ''limit'', ''buffer''];
          entities = [''bank'', ''institution'', ''entity'', ''firm'', ''organization''];
          time_patterns = re_findall time_re text_lower;
          keywords = remdups (filter (\<lambda>k. contains k text_lower) (action_keywords @ financial_terms @ entities)
                              @ time_patterns)
      in take 10 (set_order env keywords))"

subsection \<open>\<open>_extract_fallback_requirements\<close>\<close>

definition not_dot :: "char \<Rightarrow> bool" where
  "not_dot c = (c \<noteq> CHR ''.'')"

definition sentence_with :: "re \<Rightarrow> re" where
  \<comment> \<open>\<open>([^.]*(?:...)[^.]*\.)\<close>\<close>
  "sentence_with r = seqs [Rep not_dot 0 None, r, Rep not_dot 0 None, chr CHR ''.'']"

definition aggressive_patterns :: "re list" where
  "aggressive_patterns =
     [sentence_with (alts [lit_i ''must'', lit_i ''shall'', lit_i ''required to'', lit_i ''obligated to'',
                           lit_i ''mandatory'']),
      sentence_with (alts [lit_i ''prohibited'', lit_i ''forbidden'', lit_i ''not permitted'',
                           lit_i ''shall not'', lit_i ''must not'']),
      sentence_with (alts [lit_i ''minimum'', lit_i ''maximum'', lit_i ''at least'', lit_i ''no more than'']),
      sentence_with (alts [Seq (lit_i ''within '') (Rep isdigit 1 None),
                           seqs [lit_i ''by '', Rep ascii_letter 1 None, chr CHR '' '', Rep isdigit 1 None],
                           Seq (lit_i ''before '') (Rep ascii_letter 1 None)])]"

definition standard_patterns :: "re list" where
  "standard_patterns =
     [seqs [alts [lit_i ''Banks'', lit_i ''Institutions'', lit_i ''Entities''], Rep not_dot 0 None,
            alts [lit_i ''must'', lit_i ''shall'', lit_i ''required''], Rep not_dot 0 None, chr CHR ''.''],
      seqs [alts [lit_i ''The'', lit_i ''A'', lit_i ''An''], Rep not_dot 0 None,
            alts [lit_i ''requirement'', lit_i ''obligation''], Rep not_dot 0 None, chr CHR ''.''],
      sentence_with (alts [lit_i ''compliance with'', lit_i ''adherence to''])]"

definition requirement_patterns :: "bool \<Rightarrow> re list" where
  "requirement_patterns aggressive = (if aggressive then aggressive_patterns else standard_patterns)"

definition pattern_matches :: "bool \<Rightarrow> string \<Rightarrow> string list" where
  \<comment> \<open>Every match of every pattern, pattern by pattern, in the order of \<open>re.finditer\<close>.\<close>
  "pattern_matches aggressive response_text =
     concat (map (\<lambda>pattern. re_findall pattern response_text) (requirement_patterns aggressive))"

definition fallback_texts :: "bool \<Rightarrow> string \<Rightarrow> string list" where
  \<comment> \<open>The matches that make a record: stripped, and of more than 20 and fewer than 500
     characters.\<close>
  "fallback_texts aggressive response_text =
     filter (\<lambda>requirement_text. 20 < length requirement_text \<and> length requirement_text < 500)
       (map strip (pattern_matches aggressive response_text))"

definition fallback_record :: "'s env \<Rightarrow> ident \<Rightarrow> nat \<Rightarrow> string \<Rightarrow> pydict" where
  "fallback_record env cid req_id requirement_text =
     [(''id'', JStr (show_id cid @ ''_FALLBACK'' @ pad3 req_id)),
      (''requirement'', JStr requirement_text),
      (''category'', JStr (classify_requirement_category requirement_text)),
      (''priority'',
         JStr (if list_ex (\<lambda>word. contains word (lower requirement_text))
                    [''must'', ''shall'', ''mandatory'', ''required'']
               then ''high'' else ''medium'')),
      (''reference'', JStr (''Chunk '' @ show_id cid)),
      (''keywords'', JArr (map JStr (extract_enhanced_keywords env requirement_text))),
      (''chunk_id'', id_json cid),
      (''extraction_method'', JStr ''enhanced_fallback''),
      (''content_hash'', JStr (take 8 (md5_hexdigest env requirement_text)))]"

fun number_records :: "'s env \<Rightarrow> ident \<Rightarrow> nat \<Rightarrow> string list \<Rightarrow> pydict list" where
  \<comment> \<open>\<open>req_id\<close> counts the records, from 1.\<close>
  "number_records env cid req_id [] = []"
| "number_records env cid req_id (t # ts) =
     fallback_record env cid req_id t # number_records env cid (req_id + 1) ts"

definition content_summary :: "string \<Rightarrow> string" where
  "content_summary response_text =
     (if 300 < length response_text then take 300 response_text @ ''...'' else response_text)"

definition summary_record :: "ident \<Rightarrow> string \<Rightarrow> pydict" where
  "summary_record cid response_text =
     [(''id'', JStr (show_id cid @ ''_SUMMARY001'')),
      (''requirement'',
         JStr (''Manual review required - potential regulatory content: '' @ content_summary response_text)),
      (''category'', JStr ''review_required''),
      (''priority'', JStr ''low''),
      (''reference'', JStr (''Chunk '' @ show_id cid)),
      (''keywords'', JArr [JStr ''manual_review'']),
      (''chunk_id'', id_json cid),
      (''extraction_method'', JStr ''summary_fallback'')]"

function extract_fallback_requirements :: "'s env \<Rightarrow> string \<Rightarrow> ident \<Rightarrow> bool \<Rightarrow> pydict list" where
  "extract_fallback_requirements env response_text cid aggressive =
     (let requirements = number_records env cid 1 (fallback_texts aggressive response_text) in
      if requirements = [] \<and> \<not> aggressive
      then extract_fallback_requirements env response_text cid True
      else if requirements = [] then [summary_record cid response_text]
      else requirements)"
  by pat_completeness auto
termination
  by (relation "measure (\<lambda>(env, response_text, cid, aggressive). if aggressive then 0 else 1)") auto

declare extract_fallback_requirements.simps [simp del]

subsection \<open>\<open>_validate_enhanced_requirements\<close>\<close>

definition attribute_error :: "json \<Rightarrow> string" where
  \<comment> \<open>\<open>str(e)\<close> for the AttributeError of \<open>.strip()\<close> on a value that is not a string.\<close>
  "attribute_error v = [CHR 0x27] @ type_name v @ [CHR 0x27] @ '' object has no attribute ''
                       @ [CHR 0x27] @ ''strip'' @ [CHR 0x27]"

definition validated_record :: "'s env \<Rightarrow> ident \<Rightarrow> nat \<Rightarrow> pydict \<Rightarrow> string \<Rightarrow> pydict" where
  "validated_record env cid i req requirement_text =
     [(''id'', dict_get req ''id'' (JStr (show_id cid @ ''_REQ'' @ pad3 (i + 1)))),
      (''requirement'', JStr requirement_text),
      (''category'', dict_get req ''category'' (JStr ''general'')),
      (''priority'', dict_get req ''priority'' (JStr ''medium'')),
      (''reference'', dict_get req ''reference'' (JStr (''Chunk '' @ show_id cid))),
      (''keywords'', dict_get req ''keywords'' (JArr [])),
      (''requirement_type'', dict_get req ''requirement_type'' (JStr ''mandatory'')),
      (''deadline'', dict_get req ''deadline'' (JStr '''')),
      (''applies_to'', dict_get req ''applies_to'' (JStr '''')),
      (''chunk_id'', id_json cid),
      (''extraction_method'', JStr ''enhanced_llm''),
      (''content_hash'', JStr (take 8 (md5_hexdigest env requirement_text)))]"

fun validate_from :: "'s env \<Rightarrow> ident \<Rightarrow> nat \<Rightarrow> json list \<Rightarrow> string + pydict list" where
  \<comment> \<open>The loop over \<open>enumerate(requirements)\<close> from index \<open>i\<close>; \<open>Inl\<close> is the exception
     that \<open>.strip()\<close> raises when the value under \<open>requirement\<close> is not a string.\<close>
  "validate_from env cid i [] = Inr []"
| "validate_from env cid i (JObj req # reqs) =
     (case dict_get req ''requirement'' (JStr '''') of
        JStr t \<Rightarrow>
          (if length (strip t) < 10 then validate_from env cid (i + 1) reqs
           else (case validate_from env cid (i + 1) reqs of
                   Inl e \<Rightarrow> Inl e
                 | Inr rest \<Rightarrow> Inr (validated_record env cid i req (strip t) # rest)))
      | v \<Rightarrow> Inl (attribute_error v))"
| "validate_from env cid i (v # reqs) = validate_from env cid (i + 1) reqs"

definition validate_enhanced_requirements ::
  "'s env \<Rightarrow> json list \<Rightarrow> ident \<Rightarrow> string + pydict list" where
  "validate_enhanced_requirements env requirements cid = validate_from env cid 0 requirements"

subsection \<open>\<open>_clean_json_response\<close>, \<open>_alternative_json_parsing\<close>, \<open>_parse_enhanced_json_response\<close>\<close>

definition fence_re :: re where
  \<comment> \<open>Three backquotes, then \<open>(?:json)?\s*\<close>; or \<open>\s*\<close>, then three backquotes.\<close>
  "fence_re =
     Alt (seqs [lit (replicate 3 (CHR 0x60)), Alt (lit ''json'') Eps, Rep isspace 0 None])
         (Seq (Rep isspace 0 None) (lit (replicate 3 (CHR 0x60))))"

definition quote_char :: "char \<Rightarrow> bool" where
  "quote_char c = (c = CHR 0x22 \<or> c = CHR 0x27)"

definition clean_json_response :: "string \<Rightarrow> string" where
  "clean_json_response response_text =
     (let cleaned = re_sub fence_re (\<lambda>m. []) (strip response_text);
          first_brace = str_find cleaned ''{'';
          cleaned = (if 0 < first_brace then slice_from cleaned first_brace else cleaned);
          last_brace = rfind cleaned ''}'';
          cleaned = (if 0 < last_brace then slice cleaned 0 (last_brace + 1) else cleaned);
          cleaned = re_sub (seqs [chr CHR '','', Rep isspace 0 None,
                                  Chr (\<lambda>c. c = CHR ''}'' \<or> c = CHR '']'')]) tl cleaned;
          cleaned = re_sub (seqs [Chr quote_char, Rep isspace 0 None, chr (CHR 0x0A),
                                  Rep isspace 0 None, Chr quote_char]) spaced cleaned
      in cleaned)"

definition not_brace :: "char \<Rightarrow> bool" where
  "not_brace c = (c \<noteq> CHR ''{'' \<and> c \<noteq> CHR ''}'')"

definition requirement_object_re :: re where
  \<comment> \<open>An opening brace, \<open>[^{}]*\<close>, the key \<open>requirement\<close> in double quotes, \<open>[^{}]*\<close>,
     a closing brace.\<close>
  "requirement_object_re =
     seqs [chr CHR ''{'', Rep not_brace 0 None, lit ([CHR 0x22] @ ''requirement'' @ [CHR 0x22]),
           Rep not_brace 0 None, chr CHR ''}'']"

fun alt_candidates :: "'s env \<Rightarrow> ident \<Rightarrow> nat \<Rightarrow> string list \<Rightarrow> json list" where
  \<comment> \<open>The loop over \<open>enumerate(json_matches)\<close> from index \<open>i\<close>.\<close>
  "alt_candidates env cid i [] = []"
| "alt_candidates env cid i (m # ms) =
     (case json_loads env m of
        Some (JObj req_data) \<Rightarrow>
          (if map_of req_data ''requirement'' \<noteq> None
           then [JObj (dict_set ''id''
                         (dict_get req_data ''id'' (JStr (show_id cid @ ''_ALT'' @ pad3 (i + 1))))
                         req_data)]
           else [])
      | _ \<Rightarrow> [])
     @ alt_candidates env cid (i + 1) ms"

definition alternative_json_parsing :: "'s env \<Rightarrow> string \<Rightarrow> ident \<Rightarrow> pydict list" where
  \<comment> \<open>An exception of the validation is caught here, and the text-based extraction
     follows.\<close>
  "alternative_json_parsing env response_text cid =
     (let requirements = alt_candidates env cid 0 (re_findall requirement_object_re response_text) in
      if requirements \<noteq> [] then
        (case validate_enhanced_requirements env requirements cid of
           Inr validated \<Rightarrow> validated
         | Inl e \<Rightarrow> extract_fallback_requirements env response_text cid False)
      else extract_fallback_requirements env response_text cid False)"

definition parse_enhanced_json_response :: "'s env \<Rightarrow> string \<Rightarrow> ident \<Rightarrow> string + pydict list" where
  \<comment> \<open>Only JSONDecodeError is caught here: an exception of the validation leaves the
     function (\<open>Inl\<close>).\<close>
  "parse_enhanced_json_response env response_text cid =
     (case json_loads env (clean_json_response response_text) of
        Some (JObj parsed_data) \<Rightarrow>
          (case map_of parsed_data ''requirements'' of
             Some (JArr requirements) \<Rightarrow> validate_enhanced_requirements env requirements cid
           | _ \<Rightarrow> Inr (alternative_json_parsing env response_text cid))
      | _ \<Rightarrow> Inr (alternative_json_parsing env response_text cid))"

subsection \<open>\<open>_create_error_fallback\<close>, \<open>_process_large_chunk\<close>, \<open>extract_requirements\<close>\<close>

definition create_error_fallback :: "req_chunk \<Rightarrow> string \<Rightarrow> pydict list" where
  "create_error_fallback chunk error_msg =
     [[(''id'', JStr (show_id (rc_id chunk) @ ''_ERROR001'')),
       (''requirement'',
          JStr (''EXTRACTION ERROR - Manual review required: '' @ error_msg @ ''. Content preview: ''
                @ take 200 (rc_content chunk) @ ''...'')),
       (''category'', JStr ''error''),
       (''priority'', JStr ''high''),
       (''reference'', JStr (''Chunk '' @ show_id (rc_id chunk))),
       (''keywords'', JArr [JStr ''manual_review'', JStr ''extraction_error'', JStr ''system_failure'']),
       (''chunk_id'', id_json (rc_id chunk)),
       (''extraction_method'', JStr ''error_fallback''),
       (''error'', JStr error_msg),
       (''requires_manual_review'', JBool True)]]"

definition generation_attempt ::
  "'s env \<Rightarrow> string \<Rightarrow> ident \<Rightarrow> 's \<Rightarrow> (string + pydict list) \<times> 's" where
  \<comment> \<open>The body of the inner \<open>try\<close>: the call, then the parsing of the stripped
     response; \<open>Inl\<close> is the message of the exception of either.\<close>
  "generation_attempt env prompt cid st =
     (case llm_invoke env st enhanced_system_prompt prompt of
        (Inl e, st') \<Rightarrow> (Inl e, st')
      | (Inr response, st') \<Rightarrow> (parse_enhanced_json_response env (strip response) cid, st'))"

definition generation_attempts :: "'s env \<Rightarrow> req_chunk \<Rightarrow> string \<Rightarrow> 's \<Rightarrow> pydict list \<times> 's" where
  \<comment> \<open>\<open>for attempt in range(2)\<close>: the first attempt is final when it yields records;
     the second is final whatever it yields, and its exception goes to the outer
     handler, which answers with the error record.\<close>
  "generation_attempts env chunk prompt st =
     (case generation_attempt env prompt (rc_id chunk) st of
        (Inr requirements, st1) \<Rightarrow>
          (if requirements \<noteq> [] then (requirements, st1)
           else (case generation_attempt env prompt (rc_id chunk) st1 of
                   (Inr requirements2, st2) \<Rightarrow> (requirements2, st2)
                 | (Inl e, st2) \<Rightarrow> (create_error_fallback chunk e, st2)))
      | (Inl e1, st1) \<Rightarrow>
          (case generation_attempt env prompt (rc_id chunk) st1 of
             (Inr requirements2, st2) \<Rightarrow> (requirements2, st2)
           | (Inl e, st2) \<Rightarrow> (create_error_fallback chunk e, st2)))"

definition tag_parent :: "ident \<Rightarrow> nat \<Rightarrow> pydict \<Rightarrow> pydict" where
  "tag_parent cid i req =
     dict_set ''sub_chunk_index'' (JInt (int i)) (dict_set ''parent_chunk_id'' (id_json cid) req)"

fun process_sub_chunks ::
  "(req_chunk \<Rightarrow> 's \<Rightarrow> (pydict list \<times> 's) option) \<Rightarrow> ident \<Rightarrow> nat \<Rightarrow> string list \<Rightarrow> 's
     \<Rightarrow> (pydict list \<times> 's) option" where
  \<comment> \<open>The loop of \<open>_process_large_chunk\<close> over \<open>enumerate(sub_chunks)\<close>, \<open>i\<close> being
     \<open>i + 1\<close> of the source; \<open>extract\<close> is the recursive call.\<close>
  "process_sub_chunks extract cid i [] st = Some ([], st)"
| "process_sub_chunks extract cid i (sub_chunk # sub_chunks) st =
     Option.bind
       (extract \<lparr>rc_content = sub_chunk, rc_id = IdStr (show_id cid @ ''_SUB'' @ show_nat i)\<rparr> st)
       (\<lambda>(sub_requirements, st1).
          Option.bind (process_sub_chunks extract cid (i + 1) sub_chunks st1)
            (\<lambda>(rest, st2). Some (map (tag_parent cid i) sub_requirements @ rest, st2)))"

text \<open>
  The recursion of \<open>extract_requirements\<close> goes through the loop over the sub-chunks,
  which is therefore monotone in the recursive call.
\<close>

lemma process_sub_chunks_mono [partial_function_mono]:
  assumes "\<And>chunk st. mono_option (\<lambda>f. F f chunk st)"
  shows "mono_option (\<lambda>f. process_sub_chunks (F f) cid i sub_chunks st)"
proof (induction sub_chunks arbitrary: i st)
  case Nil
  show ?case by (simp add: option.const_mono)
next
  case (Cons sub_chunk sub_chunks)
  show ?case
    unfolding process_sub_chunks.simps
    by (intro bind_mono assms Cons option.const_mono) (auto intro!: bind_mono Cons option.const_mono)
qed

partial_function (option) extract_requirements ::
  "'s env \<Rightarrow> req_chunk \<Rightarrow> 's \<Rightarrow> (pydict list \<times> 's) option" where
  \<comment> \<open>\<open>None\<close> is a recursion that never ends. Every exception of the body is caught by
     the function itself and answered with the error record, so the result has no
     other failure. \<open>_process_large_chunk\<close> is the call of \<open>process_sub_chunks\<close>.\<close>
  "extract_requirements env chunk st =
     (if strip (rc_content chunk) = [] then Some ([], st)
      else
        (let processed_content = preprocess_content (rc_content chunk);
             quality_assessment = assess_content_quality processed_content
         in if likely_corrupted quality_assessment
            then Some (extract_fallback_requirements env processed_content (rc_id chunk) True, st)
            else if needs_splitting quality_assessment
            then process_sub_chunks (extract_requirements env) (rc_id chunk) 1
                   (split_text env processed_content) st
            else Some (generation_attempts env chunk
                         (enhanced_extraction_prompt processed_content (rc_id chunk) quality_assessment)
                         st)))"

declare extract_requirements.simps [code]

section \<open>Vocabulary of the properties\<close>

text \<open>The characters of a text that are not whitespace, in order.\<close>

definition non_space :: "string \<Rightarrow> string" where
  "non_space s = filter (\<lambda>c. \<not> isspace c) s"


inductive pieces_ok :: "int \<Rightarrow> int \<Rightarrow> string \<Rightarrow> int \<Rightarrow> string list \<Rightarrow> bool"
  for cs ov s where
  last_piece:
    "0 \<le> start \<Longrightarrow> int (length s) \<le> start + cs \<Longrightarrow>
     pieces_ok cs ov s start [drop (nat start) s]"
| next_piece:
    "0 \<le> start \<Longrightarrow> start + cs < int (length s) \<Longrightarrow> start + ov < bb \<Longrightarrow> bb \<le> start + cs \<Longrightarrow>
     pieces_ok cs ov s (bb - ov) ps \<Longrightarrow>
     pieces_ok cs ov s start (take (nat (bb - start)) (drop (nat start) s) # ps)"

text \<open>A section of 456 characters, for the splitter with windows of 205.\<close>

definition report_text :: string where
  "report_text = concat (replicate 24 ''Banks must report. '')"


text \<open>
  The quality score as the specification writes it, from the five quantities it names,
  and the ratio of special characters in the specification's words: the fraction of
  the characters that are outside the alphanumerics, the whitespace and \<open>.,!?;:-\<close>.
  \<open>word_char_ratio\<close> is the same fraction with the underscore counted among the
  characters that are not special.
\<close>

definition spec_quality_score :: "nat \<Rightarrow> nat \<Rightarrow> nat \<Rightarrow> rat \<Rightarrow> rat \<Rightarrow> rat" where
  "spec_quality_score regulatory coherent wc avg ratio =
     min 100 (10 * of_nat regulatory + 5 * of_nat coherent
              + (if 50 < wc \<and> wc < 1000 then 50 else 20)
              + (if 3 < avg then 20 else 10)
              - 100 * ratio)"

definition spec_special_char_ratio :: "string \<Rightarrow> rat" where
  "spec_special_char_ratio body =
     of_nat (length (filter (\<lambda>c. \<not> (isalnum c \<or> isspace c \<or> c \<in> set ''.,!?;:-'')) body))
     / of_nat (length body)"

definition word_char_ratio :: "string \<Rightarrow> rat" where
  "word_char_ratio body =
     of_nat (length (filter (\<lambda>c. \<not> (isalnum c \<or> c = CHR ''_'' \<or> isspace c \<or> c \<in> set ''.,!?;:-'')) body))
     / of_nat (length body)"

text \<open>Collaborators for the examples.\<close>

definition plain_env :: "nat env" where
  \<comment> \<open>Collaborators for the examples: a generation call that always fails and counts
     its calls, a parser that rejects every text, a splitter that returns nothing.\<close>
  "plain_env = \<lparr>llm_invoke = (\<lambda>st system_prompt prompt. (Inl ''connection reset'', st + 1)),
                 json_loads = (\<lambda>s. None),
                 split_text = (\<lambda>s. []),
                 md5_hexdigest = (\<lambda>s. ''d41d8cd98f00b204e9800998ecf8427e''),
                 set_order = (\<lambda>keywords. keywords)\<rparr>"






text \<open>
  A pattern \<open>requires\<close> a class of characters when each of its matches holds a
  character of the class. \<open>noise_char\<close> is a class that every pattern of the
  preprocessing but the two on runs of whitespace requires.
\<close>

fun requires :: "(char \<Rightarrow> bool) \<Rightarrow> re \<Rightarrow> bool" where
  "requires C (Chr P) = (\<forall>c. P c \<longrightarrow> C c)"
| "requires C Eps = False"
| "requires C (Seq r1 r2) = (requires C r1 \<or> requires C r2)"
| "requires C (Alt r1 r2) = (requires C r1 \<and> requires C r2)"
| "requires C (Rep P lo hi) = (0 < lo \<and> (\<forall>c. P c \<longrightarrow> C c))"
| "requires C WordB = False"
| "requires C Bol = False"
| "requires C Eol = False"
| "requires C (Look r) = requires C r"

definition noise_char :: "char \<Rightarrow> bool" where
  "noise_char c = (isdigit c \<or> ascii_upper c \<or> c = CHR ''.'' \<or> c = CHR ''-'' \<or> c = CHR ''(''
                   \<or> c = CHR '')'' \<or> c = CHR ''_'')"

text \<open>
  A text of \<open>n + 1\<close> words: the letter \<open>a\<close>, \<open>n + 1\<close> times, with one space between
  each two. Two more sets of collaborators, which differ from \<open>plain_env\<close> in the text
  splitter: one returns the text it is given as the only sub-chunk, the other returns
  one short sentence.
\<close>

definition word_run :: "nat \<Rightarrow> string" where
  "word_run n = CHR ''a'' # concat (replicate n '' a'')"

definition repeating_env :: "nat env" where
  "repeating_env = plain_env\<lparr>split_text := (\<lambda>s. [s])\<rparr>"

definition shrinking_env :: "nat env" where
  "shrinking_env = plain_env\<lparr>split_text := (\<lambda>s. [''Banks must hold capital.''])\<rparr>"

section \<open>The chunker: lemmas\<close>

subsection \<open>Whitespace and \<open>strip\<close>\<close>


lemma non_space_concat: "non_space (concat xs) = concat (map non_space xs)"
  by (induction xs) (simp_all add: non_space_def)

lemma non_space_dropWhile: "non_space (dropWhile isspace s) = non_space s"
  by (induction s) (simp_all add: non_space_def)

lemma non_space_rev: "non_space (rev s) = rev (non_space s)"
  by (simp add: non_space_def rev_filter)

lemma non_space_strip: "non_space (strip s) = non_space s"
  by (simp add: strip_def non_space_rev non_space_dropWhile)

lemma strip_empty_iff: "strip s = [] \<longleftrightarrow> (\<forall>c \<in> set s. isspace c)"
proof -
  have "strip s = [] \<longleftrightarrow> dropWhile isspace (rev (dropWhile isspace s)) = []"
    by (simp add: strip_def)
  also have "\<dots> \<longleftrightarrow> (\<forall>c \<in> set (dropWhile isspace s). isspace c)"
    by (simp add: dropWhile_eq_Nil_conv)
  also have "\<dots> \<longleftrightarrow> (\<forall>c \<in> set s. isspace c)"
  proof
    assume h: "\<forall>c \<in> set (dropWhile isspace s). isspace c"
    have "dropWhile isspace s = []"
    proof (rule ccontr)
      assume "dropWhile isspace s \<noteq> []"
      then have "\<not> isspace (hd (dropWhile isspace s))" by (rule hd_dropWhile)
      moreover have "hd (dropWhile isspace s) \<in> set (dropWhile isspace s)"
        using \<open>dropWhile isspace s \<noteq> []\<close> by simp
      ultimately show False using h by blast
    qed
    then show "\<forall>c \<in> set s. isspace c" by (simp add: dropWhile_eq_Nil_conv)
  next
    assume "\<forall>c \<in> set s. isspace c"
    then show "\<forall>c \<in> set (dropWhile isspace s). isspace c"
      by (meson set_dropWhileD)
  qed
  finally show ?thesis .
qed

lemma strip_empty_non_space: "strip s = [] \<longleftrightarrow> non_space s = []"
  by (simp add: strip_empty_iff non_space_def filter_empty_conv)

lemma length_strip_le: "length (strip s) \<le> length s"
proof -
  have "length (strip s) \<le> length (dropWhile isspace s)"
    using length_dropWhile_le[of isspace "rev (dropWhile isspace s)"] by (simp add: strip_def)
  also have "\<dots> \<le> length s" by (rule length_dropWhile_le)
  finally show ?thesis .
qed

lemma strip_strip_nonempty: "strip s \<noteq> [] \<Longrightarrow> strip (strip s) \<noteq> []"
  by (simp add: strip_empty_non_space non_space_strip)

lemma strip_no_outer_space:
  assumes "strip s \<noteq> []"
  shows "\<not> isspace (hd (strip s)) \<and> \<not> isspace (last (strip s))"
proof -
  let ?d = "dropWhile isspace s"
  let ?r = "dropWhile isspace (rev ?d)"
  from assms have r: "?r \<noteq> []" by (simp add: strip_def)
  have d: "?d \<noteq> []"
  proof
    assume "?d = []"
    then have "?r = []" by (simp only: rev.simps dropWhile.simps)
    with r show False by blast
  qed
  have l: "\<not> isspace (hd ?r)" using r by (rule hd_dropWhile)
  have "last (strip s) = hd ?r" using r by (simp add: strip_def last_rev)
  moreover have "hd (strip s) = hd ?d"
  proof -
    have "\<not> isspace (hd ?d)" using d by (rule hd_dropWhile)
    then have "\<not> isspace (last (rev ?d))" using d by (simp add: last_rev)
    obtain ys where ys: "rev ?d = ys @ [hd ?d]"
      using d by (metis append_butlast_last_id last_rev rev_is_Nil_conv)
    have "?r = dropWhile isspace ys @ [hd ?d]"
      using \<open>\<not> isspace (hd ?d)\<close> by (simp add: ys dropWhile_append3)
    then show ?thesis by (simp add: strip_def)
  qed
  moreover have "\<not> isspace (hd ?d)" using d by (rule hd_dropWhile)
  ultimately show ?thesis using l by simp
qed

subsection \<open>\<open>split\<close> and the structural split\<close>
















subsection \<open>The size-bounded splitter\<close>

lemma rfind_aux_bounds:
  "rfind_aux p s i best = best \<or>
   (i \<le> rfind_aux p s i best \<and> rfind_aux p s i best + int (length p) \<le> i + int (length s))"
proof (induction s arbitrary: i best)
  case Nil
  then show ?case by simp
next
  case (Cons c cs)
  let ?b = "if prefix p (c # cs) then i else best"
  from Cons[of "i + 1" ?b] show ?case
  proof
    assume e: "rfind_aux p cs (i + 1) ?b = ?b"
    show ?thesis
    proof (cases "prefix p (c # cs)")
      case True
      then have "length p \<le> length (c # cs)" by (rule prefix_length_le)
      then show ?thesis using e True by simp
    next
      case False
      then show ?thesis using e by simp
    qed
  next
    assume "i + 1 \<le> rfind_aux p cs (i + 1) ?b \<and>
            rfind_aux p cs (i + 1) ?b + int (length p) \<le> i + 1 + int (length cs)"
    then show ?thesis by simp
  qed
qed

lemma rfind_bounds:
  "rfind s p = - 1 \<or> (0 \<le> rfind s p \<and> rfind s p + int (length p) \<le> int (length s))"
  using rfind_aux_bounds[of p s 0 "- 1"] by (simp add: rfind_def)

lemma find_break_bounds:
  assumes "200 \<le> length chnk" and "\<forall>p \<in> set points. p \<noteq> []"
  shows "start + int (length chnk) - 200 < find_break chnk start (start + int (length chnk)) points
         \<and> find_break chnk start (start + int (length chnk)) points \<le> start + int (length chnk)"
  using assms(2)
proof (induction points)
  case Nil
  then show ?case by simp
next
  case (Cons p ps)
  have ne: "1 \<le> int (length p)" using Cons.prems by (cases p) simp_all
  show ?case
  proof (cases "rfind chnk p > int (length chnk) - 200")
    case True
    then have "rfind chnk p \<noteq> - 1" using assms(1) by linarith
    then have "rfind chnk p + int (length p) \<le> int (length chnk)"
      using rfind_bounds[of chnk p] by blast
    then show ?thesis using True ne by (simp add: Let_def)
  next
    case False
    then show ?thesis using Cons by (simp add: Let_def)
  qed
qed

lemma break_points_nonempty: "\<forall>p \<in> set break_points. p \<noteq> []"
  by (simp add: break_points_def)

lemma slice_nonneg:
  "0 \<le> a \<Longrightarrow> a \<le> b \<Longrightarrow> b \<le> int (length s) \<Longrightarrow> slice s a b = take (nat (b - a)) (drop (nat a) s)"
proof -
  assume h: "0 \<le> a" "a \<le> b" "b \<le> int (length s)"
  then have "py_index a (length s) = nat a" "py_index b (length s) = nat b"
    by (simp_all add: py_index_def)
  moreover have "nat b - nat a = nat (b - a)" using h by linarith
  ultimately show ?thesis by (simp add: slice_def)
qed

lemma slice_from_nonneg: "0 \<le> a \<Longrightarrow> slice_from s a = drop (nat a) s"
  by (simp add: slice_from_def py_index_def min_def)

lemma split_loop_pieces:
  assumes cfg: "0 \<le> ov" "ov + 200 \<le> cs"
  shows "0 \<le> start \<Longrightarrow> start < int (length s) \<Longrightarrow>
         \<exists>ps. pieces_ok cs ov s start ps \<and> (\<forall>acc. split_loop cs ov s start acc = Some (acc @ ps))"
proof (induction "nat (int (length s) - start)" arbitrary: start rule: less_induct)
  case less
  show ?case
  proof (cases "int (length s) \<le> start + cs")
    case True
    have "pieces_ok cs ov s start [drop (nat start) s]"
      using less.prems(1) True by (rule pieces_ok.last_piece)
    moreover have "\<forall>acc. split_loop cs ov s start acc = Some (acc @ [drop (nat start) s])"
      using less.prems True by (subst split_loop.simps) (simp add: slice_from_nonneg)
    ultimately show ?thesis by blast
  next
    case False
    let ?e = "start + cs"
    let ?chnk = "slice s start ?e"
    let ?bb = "find_break ?chnk start ?e break_points"
    have e: "?e < int (length s)" using False by simp
    have chnk: "?chnk = take (nat cs) (drop (nat start) s)"
      using less.prems cfg e by (simp add: slice_nonneg)
    have len: "int (length ?chnk) = cs" using less.prems cfg e by (simp add: chnk)
    then have "200 \<le> length ?chnk" using cfg by linarith
    from find_break_bounds[OF this break_points_nonempty, of start]
    have bb: "start + cs - 200 < ?bb" "?bb \<le> start + cs" by (simp_all add: len)
    have adv: "start + ov < ?bb" using bb cfg by linarith
    have s1: "0 \<le> ?bb - ov" using adv less.prems by linarith
    have s2: "?bb - ov < int (length s)" using bb e cfg by linarith
    have "nat (int (length s) - (?bb - ov)) < nat (int (length s) - start)"
      using adv s2 by linarith
    from less.hyps[OF this s1 s2] obtain ps where
      ps: "pieces_ok cs ov s (?bb - ov) ps"
          "\<forall>acc. split_loop cs ov s (?bb - ov) acc = Some (acc @ ps)" by blast
    have piece: "slice s start ?bb = take (nat (?bb - start)) (drop (nat start) s)"
      using less.prems adv cfg bb e by (intro slice_nonneg) linarith+
    have "pieces_ok cs ov s start (take (nat (?bb - start)) (drop (nat start) s) # ps)"
      using less.prems(1) e adv bb(2) ps(1) by (rule pieces_ok.next_piece)
    moreover have "\<forall>acc. split_loop cs ov s start acc
                     = Some (acc @ take (nat (?bb - start)) (drop (nat start) s) # ps)"
    proof
      fix acc
      have "split_loop cs ov s start acc
            = split_loop cs ov s (?bb - ov) (acc @ [slice s start ?bb])"
        using less.prems False by (subst split_loop.simps) (simp add: Let_def)
      then show "split_loop cs ov s start acc
                 = Some (acc @ take (nat (?bb - start)) (drop (nat start) s) # ps)"
        by (simp add: ps(2) piece)
    qed
    ultimately show ?thesis by blast
  qed
qed

lemma pieces_ok_start: "pieces_ok cs ov s start ps \<Longrightarrow> 0 \<le> start"
  by (induction rule: pieces_ok.induct) simp_all


lemma pieces_ok_head:
  assumes "pieces_ok cs ov s start ps" "0 \<le> ov" "start + ov \<le> int (length s)"
  shows "ps \<noteq> [] \<and> nat ov \<le> length (hd ps) \<and> take (nat ov) (hd ps) = take (nat ov) (drop (nat start) s)"
  using assms
proof (cases rule: pieces_ok.cases)
  case last_piece
  then show ?thesis using assms(2,3) by simp
next
  case (next_piece bb qs)
  then have "nat ov \<le> nat (bb - start)" "nat (bb - start) \<le> length (drop (nat start) s)"
    using assms(2) by simp_all
  then show ?thesis using next_piece by (simp add: min_def)
qed


lemma pieces_ok_adjacent:
  "pieces_ok cs ov s start ps \<Longrightarrow> 0 \<le> ov \<Longrightarrow> Suc i < length ps \<Longrightarrow>
   take (nat ov) (ps ! Suc i) = drop (length (ps ! i) - nat ov) (ps ! i)"
proof (induction arbitrary: i rule: pieces_ok.induct)
  case (last_piece start)
  then show ?case by simp
next
  case (next_piece start bb ps)
  show ?case
  proof (cases i)
    case 0
    have le: "(bb - ov) + ov \<le> int (length s)" using next_piece.hyps by linarith
    from pieces_ok_head[OF next_piece.hyps(5) next_piece.prems(1) le]
    have h: "ps \<noteq> []" "take (nat ov) (hd ps) = take (nat ov) (drop (nat (bb - ov)) s)" by simp_all
    let ?piece = "take (nat (bb - start)) (drop (nat start) s)"
    have lp: "length ?piece = nat (bb - start)" using next_piece.hyps by simp
    have "drop (length ?piece - nat ov) ?piece
          = take (nat (bb - start) - (nat (bb - start) - nat ov))
              (drop (nat (bb - start) - nat ov) (drop (nat start) s))"
      by (simp only: lp drop_take)
    also have "nat (bb - start) - (nat (bb - start) - nat ov) = nat ov"
      using next_piece.hyps next_piece.prems(1) by linarith
    also have "drop (nat (bb - start) - nat ov) (drop (nat start) s) = drop (nat (bb - ov)) s"
    proof -
      have "nat (bb - start) - nat ov + nat start = nat (bb - ov)"
        using next_piece.hyps next_piece.prems(1) by linarith
      then show ?thesis by simp
    qed
    finally show ?thesis using h 0 by (simp add: hd_conv_nth)
  next
    case (Suc j)
    then show ?thesis using next_piece.IH[OF next_piece.prems(1), of j] next_piece.prems(2) by simp
  qed
qed

lemma pieces_ok_lengths:
  "pieces_ok cs ov s start ps \<Longrightarrow> 0 \<le> ov \<Longrightarrow> start + ov \<le> int (length s) \<Longrightarrow>
   \<forall>p \<in> set ps. nat ov \<le> length p"
proof (induction rule: pieces_ok.induct)
  case (last_piece start)
  then show ?case by simp
next
  case (next_piece start bb ps)
  have "nat ov \<le> nat (bb - start)" "nat (bb - start) \<le> length (drop (nat start) s)"
    using next_piece.hyps next_piece.prems by simp_all
  then have "nat ov \<le> length (take (nat (bb - start)) (drop (nat start) s))"
    by (simp only: length_take min_def split: if_splits) simp
  moreover have "\<forall>p \<in> set ps. nat ov \<le> length p"
    using next_piece.IH next_piece.prems(1) next_piece.hyps by simp
  ultimately show ?case by simp
qed

lemma pieces_ok_last_suffix:
  "pieces_ok cs ov s start ps \<Longrightarrow> suffix (last ps) s"
proof (induction rule: pieces_ok.induct)
  case (last_piece start)
  then show ?case by (simp add: suffix_drop)
next
  case (next_piece start bb ps)
  then have "ps \<noteq> []" by (auto elim: pieces_ok.cases)
  then show ?case using next_piece.IH by simp
qed

lemma split_large_section_empty: "split_large_section cs ov [] = Some []"
  by (simp add: split_large_section_def split_loop.simps)

lemma split_large_section_pieces:
  assumes "0 \<le> ov" "ov + 200 \<le> cs" "s \<noteq> []"
  shows "\<exists>ps. split_large_section cs ov s = Some ps \<and> pieces_ok cs ov s 0 ps"
proof -
  have "0 < int (length s)" using assms(3) by simp
  from split_loop_pieces[OF assms(1,2) _ this] obtain ps where
    "pieces_ok cs ov s 0 ps" "\<forall>acc. split_loop cs ov s 0 acc = Some (acc @ ps)" by auto
  then show ?thesis by (auto simp: split_large_section_def)
qed









section \<open>The chunker: the claims\<close>




text \<open>
  C5. With \<open>0 \<le> overlap \<le> chunk_size - 200\<close> the size-bounded splitter returns, and
  every adjacent pair of its chunks shares exactly \<open>overlap\<close> characters: both chunks
  are at least that long, and the last \<open>overlap\<close> characters of chunk \<open>i\<close> are the
  first \<open>overlap\<close> characters of chunk \<open>i + 1\<close>. The final chunk runs to the end of
  the section.
\<close>

theorem split_large_section_overlap:
  assumes "0 \<le> overlap" "overlap \<le> chunk_size - 200"
  shows "\<exists>chunks. split_large_section chunk_size overlap section = Some chunks
           \<and> (\<forall>i. Suc i < length chunks \<longrightarrow>
                  nat overlap \<le> length (chunks ! i) \<and> nat overlap \<le> length (chunks ! Suc i)
                  \<and> take (nat overlap) (chunks ! Suc i)
                      = drop (length (chunks ! i) - nat overlap) (chunks ! i))
           \<and> (chunks \<noteq> [] \<longrightarrow> suffix (last chunks) section)"
proof (cases "section = []")
  case True
  then show ?thesis by (simp add: split_large_section_empty)
next
  case False
  have cfg: "overlap + 200 \<le> chunk_size" using assms(2) by simp
  from split_large_section_pieces[OF assms(1) cfg False] obtain ps where
    ps: "split_large_section chunk_size overlap section = Some ps"
        "pieces_ok chunk_size overlap section 0 ps" by blast
  have "\<forall>i. Suc i < length ps \<longrightarrow>
          nat overlap \<le> length (ps ! i) \<and> nat overlap \<le> length (ps ! Suc i)
          \<and> take (nat overlap) (ps ! Suc i) = drop (length (ps ! i) - nat overlap) (ps ! i)"
  proof (intro allI impI)
    fix i assume i: "Suc i < length ps"
    from ps(2) have "0 + overlap \<le> int (length section)"
    proof (cases rule: pieces_ok.cases)
      case last_piece
      then show ?thesis using i by simp
    next
      case (next_piece bb qs)
      then show ?thesis using cfg by linarith
    qed
    from pieces_ok_lengths[OF ps(2) assms(1) this]
    have "nat overlap \<le> length (ps ! i)" "nat overlap \<le> length (ps ! Suc i)"
      using i by simp_all
    then show "nat overlap \<le> length (ps ! i) \<and> nat overlap \<le> length (ps ! Suc i)
          \<and> take (nat overlap) (ps ! Suc i) = drop (length (ps ! i) - nat overlap) (ps ! i)"
      using pieces_ok_adjacent[OF ps(2) assms(1) i] by simp
  qed
  moreover have "suffix (last ps) section" using ps(2) by (rule pieces_ok_last_suffix)
  ultimately show ?thesis using ps(1) by blast
qed

lemma report_text_split:
  "split_large_section 205 5 report_text =
     Some [concat (replicate 10 ''Banks must report. ''),
           ''ort. '' @ concat (replicate 10 ''Banks must report. ''),
           ''ort. '' @ concat (replicate 4 ''Banks must report. '')]"
  by code_simp

theorem split_large_section_overlap_witness:
  "split_large_section 205 5 report_text =
     Some [concat (replicate 10 ''Banks must report. ''),
           ''ort. '' @ concat (replicate 10 ''Banks must report. ''),
           ''ort. '' @ concat (replicate 4 ''Banks must report. '')]
   \<and> take 5 (''ort. '' @ concat (replicate 10 ''Banks must report. ''))
       = drop (length (concat (replicate 10 ''Banks must report. '')) - 5)
           (concat (replicate 10 ''Banks must report. ''))
   \<and> suffix (''ort. '' @ concat (replicate 4 ''Banks must report. '')) report_text"
proof -
  have "(0::int) \<le> 5" "(5::int) \<le> 205 - 200" by simp_all
  from split_large_section_overlap[OF this, of report_text] obtain chunks where
    c: "split_large_section 205 5 report_text = Some chunks"
       "\<forall>i. Suc i < length chunks \<longrightarrow>
           take (nat 5) (chunks ! Suc i) = drop (length (chunks ! i) - nat 5) (chunks ! i)"
       "chunks \<noteq> [] \<longrightarrow> suffix (last chunks) report_text" by blast
  have e: "chunks = [concat (replicate 10 ''Banks must report. ''),
           ''ort. '' @ concat (replicate 10 ''Banks must report. ''),
           ''ort. '' @ concat (replicate 4 ''Banks must report. '')]"
    using c(1) by (simp only: report_text_split option.inject)
  have "take (nat 5) (chunks ! Suc 0) = drop (length (chunks ! 0) - nat 5) (chunks ! 0)"
    using c(2)[rule_format, of 0] e by simp
  moreover have "suffix (last chunks) report_text" using c(3) e by simp
  ultimately show ?thesis unfolding e using report_text_split by simp
qed





text \<open>
  C7. The second half of the claim holds: the content of a chunk is never empty or
  whitespace-only (it is a stripped fragment that did not strip to nothing). The first
  half does not: \<open>char_count\<close> is the length of the fragment before it is stripped,
  while \<open>content\<close> is the stripped fragment, so the two differ as soon as a fragment
  begins or ends with whitespace. Below, the first fragment is \<open>First part.\<close> followed
  by three spaces: its content has 11 characters and its \<open>char_count\<close> is 14.
\<close>

theorem chunk_document_char_count_mismatch:
  "chunk_document 30000 200 ''First part.   \<newline>\<newline>\<newline>Second part here'' ''policy'' =
     Some [\<lparr>chunk_id = 1, content = ''First part.'', doc_type = ''policy'',
             char_count = 14, estimated_tokens = 3\<rparr>,
           \<lparr>chunk_id = 2, content = ''Second part here'', doc_type = ''policy'',
             char_count = 16, estimated_tokens = 4\<rparr>]
   \<and> length ''First part.'' = 11"
  by code_simp

lemma chunk_document_content_nonblank:
  assumes "chunk_document chunk_size overlap text dt = Some chunks" "c \<in> set chunks"
  shows "strip (content c) \<noteq> [] \<and> length (content c) \<le> char_count c"
proof -
  have br: "\<And>i ps. c \<in> set (build_result dt i ps) \<Longrightarrow>
              strip (content c) \<noteq> [] \<and> length (content c) \<le> char_count c"
  proof -
    fix i ps show "c \<in> set (build_result dt i ps) \<Longrightarrow>
              strip (content c) \<noteq> [] \<and> length (content c) \<le> char_count c"
      by (induction ps arbitrary: i)
         (auto simp: strip_strip_nonempty length_strip_le split: if_splits)
  qed
  show ?thesis
  proof (cases "text = [] \<or> length (strip text) < 10")
    case True
    then show ?thesis using assms by (auto simp: chunk_document_def)
  next
    case False
    then obtain ps where "chunks = build_result dt 0 ps"
      using assms(1) by (auto simp: chunk_document_def)
    then show ?thesis using assms(2) br by blast
  qed
qed







section \<open>The extractor: lemmas and claims\<close>

subsection \<open>The quality assessment\<close>

lemma match_len_Chr:
  "match_len (Chr P) prev (c # cs) = (if P c then Some 1 else None)"
  by (simp add: match_len_def)

lemma match_len_Chr_Nil: "match_len (Chr P) prev [] = None"
  by (simp add: match_len_def)

lemma findall_from_Chr:
  "findall_from (Chr P) prev s 0 = map (\<lambda>c. [c]) (filter P s)"
  by (induction s arbitrary: prev) (simp_all add: match_len_Chr match_len_Chr_Nil)

lemma length_findall_Chr: "length (re_findall (Chr P) s) = length (filter P s)"
  by (simp add: re_findall_def findall_from_Chr)

lemma special_char_ratio_fraction: "special_char_ratio body = word_char_ratio body"
proof -
  have "special_char = (\<lambda>c. \<not> (isalnum c \<or> c = CHR ''_'' \<or> isspace c \<or> c \<in> set ''.,!?;:-''))"
    by (auto simp: special_char_def isword_def fun_eq_iff)
  then have n: "length (re_findall (Chr special_char) body)
      = length (filter (\<lambda>c. \<not> (isalnum c \<or> c = CHR ''_'' \<or> isspace c \<or> c \<in> set ''.,!?;:-'')) body)"
    by (simp only: length_findall_Chr)
  show ?thesis
  proof (cases body)
    case Nil
    then show ?thesis by (simp add: special_char_ratio_def word_char_ratio_def re_findall_def match_len_Chr_Nil)
  next
    case (Cons c cs)
    then have "max (length body) 1 = length body" by simp
    then show ?thesis by (simp only: special_char_ratio_def word_char_ratio_def n)
  qed
qed

text \<open>
  C8, as the code has it. The class of the code is \<open>[^\w\s.,!?;:-]\<close>, and \<open>\w\<close> holds
  the underscore besides the alphanumerics, so an underscore is not a special
  character. With the ratio read that way the score is the formula of the claim, and
  the two flags are as the claim says.
\<close>

theorem assess_content_quality_formula:
  "quality_score (assess_content_quality body)
     = spec_quality_score (regulatory_indicators (assess_content_quality body))
         (coherent_sentences (assess_content_quality body))
         (word_count (assess_content_quality body))
         (avg_word_length body) (word_char_ratio body)
   \<and> word_count (assess_content_quality body) = length (py_words body)
   \<and> needs_splitting (assess_content_quality body) = (2500 < word_count (assess_content_quality body))
   \<and> likely_corrupted (assess_content_quality body)
       = (3 / 10 < word_char_ratio body \<or> quality_score (assess_content_quality body) < 20)"
  by (simp add: assess_content_quality_def Let_def spec_quality_score_def special_char_ratio_fraction
        mult.commute)

lemma capital_sentence_quality:
  "assess_content_quality ''Banks must hold capital_buffers.''
     = \<lparr>word_count = 4, regulatory_indicators = 1, coherent_sentences = 1, quality_score = 55,
        needs_splitting = False, likely_corrupted = False\<rparr>"
  by code_simp

theorem assess_content_quality_formula_witness:
  "quality_score (assess_content_quality ''Banks must hold capital_buffers.'') = 55
   \<and> spec_quality_score 1 1 4 (avg_word_length ''Banks must hold capital_buffers.'')
        (word_char_ratio ''Banks must hold capital_buffers.'') = 55
   \<and> word_char_ratio ''Banks must hold capital_buffers.'' = 0
   \<and> needs_splitting (assess_content_quality ''Banks must hold capital_buffers.'') = False
   \<and> likely_corrupted (assess_content_quality ''Banks must hold capital_buffers.'') = False"
proof -
  have w: "word_char_ratio ''Banks must hold capital_buffers.'' = 0"
    by code_simp
  show ?thesis
    using assess_content_quality_formula[of "''Banks must hold capital_buffers.''"] w
    by (simp add: capital_sentence_quality)
qed

text \<open>
  The claim as stated fails on an underscore. For the text of four underscores the
  code finds no special character and scores 40, which is not a corrupted text; the
  ratio of the claim is 1, its score is -60, and its text is corrupted.
\<close>

theorem assess_content_quality_counterexample:
  "assess_content_quality ''____''
     = \<lparr>word_count = 1, regulatory_indicators = 0, coherent_sentences = 0, quality_score = 40,
        needs_splitting = False, likely_corrupted = False\<rparr>
   \<and> avg_word_length ''____'' = 4
   \<and> spec_special_char_ratio ''____'' = 1
   \<and> spec_quality_score 0 0 1 4 1 = - 60
   \<and> (3 / 10 < spec_special_char_ratio ''____'' \<or> spec_quality_score 0 0 1 4 1 < 20)"
  by code_simp

subsection \<open>The pattern fallback\<close>

lemma number_records_empty: "number_records env cid n ts = [] \<longleftrightarrow> ts = []"
  by (cases ts) simp_all

lemma fallback_texts_no_match: "pattern_matches aggressive t = [] \<Longrightarrow> fallback_texts aggressive t = []"
  by (simp add: fallback_texts_def)

lemma extract_fallback_aggressive:
  "extract_fallback_requirements env t cid True =
     (if fallback_texts True t = [] then [summary_record cid t]
      else number_records env cid 1 (fallback_texts True t))"
  by (subst extract_fallback_requirements.simps) (simp add: Let_def number_records_empty)

lemma extract_fallback_standard:
  "extract_fallback_requirements env t cid False =
     (if fallback_texts False t = [] then extract_fallback_requirements env t cid True
      else number_records env cid 1 (fallback_texts False t))"
  by (subst extract_fallback_requirements.simps) (simp add: Let_def number_records_empty)

lemma extract_fallback_nonempty: "extract_fallback_requirements env t cid aggressive \<noteq> []"
proof -
  have a: "extract_fallback_requirements env t cid True \<noteq> []"
    by (simp add: extract_fallback_aggressive number_records_empty)
  show ?thesis
  proof (cases aggressive)
    case True
    then show ?thesis using a by simp
  next
    case False
    then show ?thesis using a by (simp add: extract_fallback_standard number_records_empty)
  qed
qed

text \<open>
  C10. \<open>_extract_fallback_requirements\<close> returns at least one record in either mode.
  In the standard mode, when no standard pattern yields a record (in particular when
  none matches), the result is that of the aggressive mode on the same text and chunk
  id. In the aggressive mode, when no aggressive pattern yields a record, the result is
  the one summary record: its category is \<open>review_required\<close>, its extraction method
  \<open>summary_fallback\<close>, and its text ends with the response, cut to 300 characters and
  followed by three dots when it is longer.
\<close>

theorem extract_fallback_requirements_never_empty:
  "extract_fallback_requirements env t cid False \<noteq> []
   \<and> extract_fallback_requirements env t cid True \<noteq> []
   \<and> (pattern_matches False t = [] \<longrightarrow> fallback_texts False t = [])
   \<and> (pattern_matches True t = [] \<longrightarrow> fallback_texts True t = [])
   \<and> (fallback_texts False t = [] \<longrightarrow>
        extract_fallback_requirements env t cid False = extract_fallback_requirements env t cid True)
   \<and> (fallback_texts True t = [] \<longrightarrow>
        extract_fallback_requirements env t cid True = [summary_record cid t])
   \<and> (fallback_texts False t = [] \<and> fallback_texts True t = [] \<longrightarrow>
        extract_fallback_requirements env t cid False = [summary_record cid t])
   \<and> map_of (summary_record cid t) ''category'' = Some (JStr ''review_required'')
   \<and> map_of (summary_record cid t) ''extraction_method'' = Some (JStr ''summary_fallback'')
   \<and> map_of (summary_record cid t) ''requirement''
       = Some (JStr (''Manual review required - potential regulatory content: ''
                     @ (if 300 < length t then take 300 t @ ''...'' else t)))"
proof (intro conjI)
  show "extract_fallback_requirements env t cid False \<noteq> []"
    and "extract_fallback_requirements env t cid True \<noteq> []"
    by (rule extract_fallback_nonempty)+
  show "pattern_matches False t = [] \<longrightarrow> fallback_texts False t = []"
    and "pattern_matches True t = [] \<longrightarrow> fallback_texts True t = []"
    by (simp_all add: fallback_texts_no_match)
  show "fallback_texts False t = [] \<longrightarrow>
        extract_fallback_requirements env t cid False = extract_fallback_requirements env t cid True"
    by (simp add: extract_fallback_standard)
  show "fallback_texts True t = [] \<longrightarrow>
        extract_fallback_requirements env t cid True = [summary_record cid t]"
    by (simp add: extract_fallback_aggressive)
  show "fallback_texts False t = [] \<and> fallback_texts True t = [] \<longrightarrow>
        extract_fallback_requirements env t cid False = [summary_record cid t]"
    by (simp add: extract_fallback_standard extract_fallback_aggressive)
  show "map_of (summary_record cid t) ''category'' = Some (JStr ''review_required'')"
    and "map_of (summary_record cid t) ''extraction_method'' = Some (JStr ''summary_fallback'')"
    and "map_of (summary_record cid t) ''requirement''
       = Some (JStr (''Manual review required - potential regulatory content: ''
                     @ (if 300 < length t then take 300 t @ ''...'' else t)))"
    by (simp_all add: summary_record_def content_summary_def)
qed

lemma hello_no_match: "pattern_matches False ''Hello, world'' = [] \<and> pattern_matches True ''Hello, world'' = []"
  by code_simp

theorem extract_fallback_requirements_never_empty_witness:
  "pattern_matches False ''Hello, world'' = [] \<and> pattern_matches True ''Hello, world'' = []
   \<and> extract_fallback_requirements plain_env ''Hello, world'' (IdInt 7) False =
       [[(''id'', JStr ''7_SUMMARY001''),
         (''requirement'', JStr ''Manual review required - potential regulatory content: Hello, world''),
         (''category'', JStr ''review_required''),
         (''priority'', JStr ''low''),
         (''reference'', JStr ''Chunk 7''),
         (''keywords'', JArr [JStr ''manual_review'']),
         (''chunk_id'', JInt 7),
         (''extraction_method'', JStr ''summary_fallback'')]]"
proof -
  have s: "summary_record (IdInt 7) ''Hello, world'' =
       [(''id'', JStr ''7_SUMMARY001''),
         (''requirement'', JStr ''Manual review required - potential regulatory content: Hello, world''),
         (''category'', JStr ''review_required''),
         (''priority'', JStr ''low''),
         (''reference'', JStr ''Chunk 7''),
         (''keywords'', JArr [JStr ''manual_review'']),
         (''chunk_id'', JInt 7),
         (''extraction_method'', JStr ''summary_fallback'')]"
    by code_simp
  have "extract_fallback_requirements plain_env ''Hello, world'' (IdInt 7) False
        = [summary_record (IdInt 7) ''Hello, world'']"
    using extract_fallback_requirements_never_empty[of plain_env "''Hello, world''" "IdInt 7"]
      hello_no_match by blast
  then show ?thesis using hello_no_match s by simp
qed

subsection \<open>The generation path\<close>

lemma extract_requirements_generation:
  assumes "strip (rc_content chunk) \<noteq> []"
    and "\<not> likely_corrupted (assess_content_quality (preprocess_content (rc_content chunk)))"
    and "\<not> needs_splitting (assess_content_quality (preprocess_content (rc_content chunk)))"
  shows "extract_requirements env chunk st =
           Some (generation_attempts env chunk
                   (enhanced_extraction_prompt (preprocess_content (rc_content chunk)) (rc_id chunk)
                      (assess_content_quality (preprocess_content (rc_content chunk)))) st)"
  using assms by (subst extract_requirements.simps) (simp add: Let_def)

lemma capital_sentence_preprocessed:
  "preprocess_content ''Banks must hold capital.'' = ''Banks must hold capital.''"
  by code_simp

lemma capital_sentence_assessed:
  "assess_content_quality ''Banks must hold capital.''
     = \<lparr>word_count = 4, regulatory_indicators = 1, coherent_sentences = 1, quality_score = 55,
        needs_splitting = False, likely_corrupted = False\<rparr>"
  by code_simp

lemma capital_sentence_not_blank: "strip ''Banks must hold capital.'' \<noteq> []"
  by code_simp

text \<open>
  C3. For a chunk that reaches the generation call (its content is not blank, not
  likely corrupted and not to be split), two failures of the call, with messages \<open>e1\<close>
  and \<open>e2\<close>, make \<open>extract_requirements\<close> return exactly one record: the error record,
  which carries the chunk id, the message of the second failure and the first 200
  characters of the chunk's content. The function returns a value; no exception
  reaches the caller.
\<close>

theorem two_generation_failures_one_error_record:
  assumes "strip (rc_content chunk) \<noteq> []"
    and "\<not> likely_corrupted (assess_content_quality (preprocess_content (rc_content chunk)))"
    and "\<not> needs_splitting (assess_content_quality (preprocess_content (rc_content chunk)))"
    and "llm_invoke env st enhanced_system_prompt
           (enhanced_extraction_prompt (preprocess_content (rc_content chunk)) (rc_id chunk)
              (assess_content_quality (preprocess_content (rc_content chunk)))) = (Inl e1, st1)"
    and "llm_invoke env st1 enhanced_system_prompt
           (enhanced_extraction_prompt (preprocess_content (rc_content chunk)) (rc_id chunk)
              (assess_content_quality (preprocess_content (rc_content chunk)))) = (Inl e2, st2)"
  shows "extract_requirements env chunk st = Some (create_error_fallback chunk e2, st2)
         \<and> (\<exists>r. create_error_fallback chunk e2 = [r]
                \<and> map_of r ''extraction_method'' = Some (JStr ''error_fallback'')
                \<and> map_of r ''category'' = Some (JStr ''error'')
                \<and> map_of r ''chunk_id'' = Some (id_json (rc_id chunk))
                \<and> map_of r ''error'' = Some (JStr e2)
                \<and> map_of r ''requirement''
                    = Some (JStr (''EXTRACTION ERROR - Manual review required: '' @ e2
                                  @ ''. Content preview: '' @ take 200 (rc_content chunk) @ ''...'')))"
proof
  show "extract_requirements env chunk st = Some (create_error_fallback chunk e2, st2)"
    using assms(4,5)
    by (simp add: extract_requirements_generation[OF assms(1,2,3)] generation_attempts_def
          generation_attempt_def)
  show "\<exists>r. create_error_fallback chunk e2 = [r]
                \<and> map_of r ''extraction_method'' = Some (JStr ''error_fallback'')
                \<and> map_of r ''category'' = Some (JStr ''error'')
                \<and> map_of r ''chunk_id'' = Some (id_json (rc_id chunk))
                \<and> map_of r ''error'' = Some (JStr e2)
                \<and> map_of r ''requirement''
                    = Some (JStr (''EXTRACTION ERROR - Manual review required: '' @ e2
                                  @ ''. Content preview: '' @ take 200 (rc_content chunk) @ ''...''))"
    by (simp add: create_error_fallback_def)
qed

theorem two_generation_failures_one_error_record_witness:
  "extract_requirements plain_env \<lparr>rc_content = ''Banks must hold capital.'', rc_id = IdInt 3\<rparr> 0 =
     Some ([[(''id'', JStr ''3_ERROR001''),
             (''requirement'',
                JStr (''EXTRACTION ERROR - Manual review required: connection reset. ''
                      @ ''Content preview: Banks must hold capital....'')),
             (''category'', JStr ''error''),
             (''priority'', JStr ''high''),
             (''reference'', JStr ''Chunk 3''),
             (''keywords'', JArr [JStr ''manual_review'', JStr ''extraction_error'', JStr ''system_failure'']),
             (''chunk_id'', JInt 3),
             (''extraction_method'', JStr ''error_fallback''),
             (''error'', JStr ''connection reset''),
             (''requires_manual_review'', JBool True)]], 2)"
proof -
  let ?chunk = "\<lparr>rc_content = ''Banks must hold capital.'', rc_id = IdInt 3\<rparr>"
  let ?prompt = "enhanced_extraction_prompt (preprocess_content (rc_content ?chunk)) (rc_id ?chunk)
              (assess_content_quality (preprocess_content (rc_content ?chunk)))"
  have h1: "strip (rc_content ?chunk) \<noteq> []" using capital_sentence_not_blank by simp
  have h2: "\<not> likely_corrupted (assess_content_quality (preprocess_content (rc_content ?chunk)))"
    by (simp add: capital_sentence_preprocessed capital_sentence_assessed)
  have h3: "\<not> needs_splitting (assess_content_quality (preprocess_content (rc_content ?chunk)))"
    by (simp add: capital_sentence_preprocessed capital_sentence_assessed)
  have h4: "llm_invoke plain_env 0 enhanced_system_prompt ?prompt = (Inl ''connection reset'', 1)"
    by (simp add: plain_env_def)
  have h5: "llm_invoke plain_env 1 enhanced_system_prompt ?prompt = (Inl ''connection reset'', 2)"
    by (simp add: plain_env_def)
  have "extract_requirements plain_env ?chunk 0
          = Some (create_error_fallback ?chunk ''connection reset'', 2)"
    using two_generation_failures_one_error_record[OF h1 h2 h3 h4 h5] by blast
  moreover have "show_id (IdInt 3) = ''3''" by code_simp
  ultimately show ?thesis by (simp add: create_error_fallback_def)
qed

subsection \<open>Empty and non-empty results\<close>












subsection \<open>Patterns that cannot match\<close>

lemma rep_match_none_cont:
  "(\<And>p t. suffix t s \<Longrightarrow> k p t = None) \<Longrightarrow> rep_match P lo hi prev s k = None"
proof (induction s arbitrary: lo hi prev)
  case Nil
  then show ?case by simp
next
  case (Cons c cs)
  have "rep_match P (lo - 1) (map_option (\<lambda>h. h - 1) hi) (Some c) cs k = None"
    by (rule Cons.IH) (simp add: Cons.prems suffix_ConsI)
  moreover have "k prev (c # cs) = None" by (simp add: Cons.prems)
  ultimately show ?case by simp
qed

lemma rmatch_none_cont:
  "(\<And>p t. suffix t s \<Longrightarrow> k p t = None) \<Longrightarrow> rmatch r prev s k = None"
proof (induction r arbitrary: prev s k)
  case (Chr P)
  then show ?case by (cases s) (simp_all add: suffix_ConsI)
next
  case Eps
  then show ?case by simp
next
  case (Seq r1 r2)
  have "\<And>p t. suffix t s \<Longrightarrow> rmatch r2 p t k = None"
  proof -
    fix p t assume t: "suffix t s"
    show "rmatch r2 p t k = None"
      by (rule Seq.IH(2)) (meson Seq.prems t suffix_order.trans)
  qed
  then show ?case by (simp add: Seq.IH(1))
next
  case (Alt r1 r2)
  then show ?case by simp
next
  case (Rep P lo hi)
  then show ?case by (simp add: rep_match_none_cont)
next
  case WordB
  then show ?case by simp
next
  case Bol
  then show ?case by simp
next
  case Eol
  then show ?case by simp
next
  case (Look r)
  then show ?case by (simp split: option.splits)
qed

lemma rmatch_requires:
  "requires C r \<Longrightarrow> \<forall>c \<in> set s. \<not> C c \<Longrightarrow> rmatch r prev s k = None"
proof (induction r arbitrary: prev s k)
  case (Chr P)
  then show ?case by (cases s) auto
next
  case Eps
  then show ?case by simp
next
  case (Seq r1 r2)
  show ?case
  proof (cases "requires C r1")
    case True
    then show ?thesis using Seq by simp
  next
    case False
    then have r2: "requires C r2" using Seq.prems by simp
    have "\<And>p t. suffix t s \<Longrightarrow> rmatch r2 p t k = None"
    proof -
      fix p t assume "suffix t s"
      then have "\<forall>c \<in> set t. \<not> C c" using Seq.prems(2) by (meson set_mono_suffix subsetD)
      with r2 show "rmatch r2 p t k = None" by (rule Seq.IH(2))
    qed
    then show ?thesis by (simp add: rmatch_none_cont)
  qed
next
  case (Alt r1 r2)
  then show ?case by simp
next
  case (Rep P lo hi)
  then show ?case by (cases s) auto
next
  case WordB
  then show ?case by simp
next
  case Bol
  then show ?case by simp
next
  case Eol
  then show ?case by simp
next
  case (Look r)
  then show ?case by simp
qed

lemma sub_from_no_match:
  "(\<And>p t. suffix t s \<Longrightarrow> match_len r p t = None) \<Longrightarrow> sub_from r repl prev s 0 = s"
proof (induction s arbitrary: prev)
  case Nil
  then show ?case by simp
next
  case (Cons c cs)
  have "sub_from r repl (Some c) cs 0 = cs"
    by (rule Cons.IH) (simp add: Cons.prems suffix_ConsI)
  moreover have "match_len r prev (c # cs) = None" by (simp add: Cons.prems)
  ultimately show ?case by simp
qed

lemma re_sub_requires:
  assumes "requires C r" "\<forall>c \<in> set s. \<not> C c"
  shows "re_sub r repl s = s"
proof -
  have "\<And>p t. suffix t s \<Longrightarrow> match_len r p t = None"
  proof -
    fix p t assume "suffix t s"
    then have "\<forall>c \<in> set t. \<not> C c" using assms(2) by (meson set_mono_suffix subsetD)
    then show "match_len r p t = None"
      using assms(1) by (simp add: match_len_def rmatch_requires)
  qed
  then show ?thesis unfolding re_sub_def by (rule sub_from_no_match)
qed

end
